theory Spec2Isabelle
  imports Main "HOL-Library.Word"
begin

unbundle bit_operations_syntax

section \<open>The dedupe index coordinator of kvdo (vdo/kernel/dedupeIndex.c)\<close>

text \<open>
  A shallow embedding of \<^verbatim>\<open>src/vdo/kernel/dedupeIndex.c\<close>. Each C function is a HOL
  function of the same name over records that hold the fields of the C structs.
  Calls that leave the file (the data path's callback, the UDS engine, the kernel's
  timer and work queues) are written into observation logs or taken as inputs.
\<close>

subsection \<open>Scalar types\<close>

type_synonym byte = "8 word"
type_synonym uint32 = "32 word"
type_synonym uint64 = "64 word"

text \<open>\<^verbatim>\<open>Jiffies\<close> is \<^verbatim>\<open>unsigned long\<close>: 64 bits on the LP64 kernels the module is built for.\<close>

type_synonym Jiffies = "64 word"

text \<open>
  Status codes. In C they are \<^verbatim>\<open>int\<close>s whose values come from \<^verbatim>\<open>uds.h\<close> and
  \<^verbatim>\<open>errno.h\<close>; the file only compares them with each other, so the model keeps the
  named codes apart and carries every other code as a number.
\<close>

datatype status_code =
    UDS_SUCCESS
  | UDS_CORRUPT_COMPONENT
  | UDS_NO_INDEX
  | ETIMEDOUT
  | OTHER_ERROR int

text \<open>The values of the atomic \<^verbatim>\<open>dedupe_context.request_state\<close> (lines 52-60).\<close>

datatype request_state = UR_IDLE | UR_BUSY | UR_TIMED_OUT

text \<open>\<^verbatim>\<open>index_state\<close> (lines 64-71).\<close>

datatype index_state = IS_CLOSED | IS_CHANGING | IS_OPENED

datatype UdsCallbackType = UDS_DELETE | UDS_POST | UDS_QUERY | UDS_UPDATE

subsection \<open>Advice codec\<close>

text \<open>
  \<^verbatim>\<open>DataLocation\<close> is the pair of a physical block number and a mapping state; the
  codec stores the state in one byte.
\<close>

record DataLocation =
  pbn :: uint64
  state :: byte

text \<open>
  \<^verbatim>\<open>UdsChunkData\<close> wraps a byte array of fixed capacity
  \<^verbatim>\<open>UDS_MAX_BLOCK_DATA_SIZE\<close> (16: "limited to 16 bytes", line 132).
\<close>

record UdsChunkData =
  data :: "byte list"

definition UDS_MAX_BLOCK_DATA_SIZE :: nat where
  "UDS_MAX_BLOCK_DATA_SIZE = 16"

definition UDS_ADVICE_VERSION :: byte where
  "UDS_ADVICE_VERSION = 2"

definition UDS_ADVICE_SIZE :: nat where
  "UDS_ADVICE_SIZE = 1 + 1 + 8"

text \<open>
  The fields of \<^verbatim>\<open>UdsRequest\<close> the file reads or writes. The session handle and the
  callback pointer carry no information here: the callback is always
  \<^verbatim>\<open>finish_index_operation\<close>.
\<close>

record UdsRequest =
  chunkName :: "byte list"
  request_type :: UdsCallbackType
  update :: bool
  status :: status_code
  found :: bool
  oldMetadata :: UdsChunkData
  newMetadata :: UdsChunkData

text \<open>
  Modelled from the spec: \<^verbatim>\<open>encodeUInt64LE\<close> and \<^verbatim>\<open>decodeUInt64LE\<close> of
  \<^verbatim>\<open>numeric.h\<close>, which is not among the sources. The record is "version, state byte,
  64-bit little-endian physical block number": the encoder stores the eight bytes of
  the value at \<open>offset\<close>, least significant first, and advances the offset by eight;
  the decoder reads them back the same way.
\<close>

fun le_bytes :: "nat \<Rightarrow> uint64 \<Rightarrow> byte list" where
  "le_bytes 0 v = []"
| "le_bytes (Suc n) v = ucast v # le_bytes n (drop_bit 8 v)"

fun le_value :: "byte list \<Rightarrow> uint64" where
  "le_value [] = 0"
| "le_value (b # bs) = ucast b OR push_bit 8 (le_value bs)"

definition encodeUInt64LE :: "byte list \<Rightarrow> nat \<Rightarrow> uint64 \<Rightarrow> byte list \<times> nat" where
  "encodeUInt64LE d offset v =
     (take offset d @ le_bytes 8 v @ drop (offset + 8) d, offset + 8)"

definition decodeUInt64LE :: "byte list \<Rightarrow> nat \<Rightarrow> uint64 \<times> nat" where
  "decodeUInt64LE d offset = (le_value (take 8 (drop offset d)), offset + 8)"

text \<open>
  \<^verbatim>\<open>encode_uds_advice\<close> (lines 185-193). The three writes go to offsets 0, 1 and
  2..9 of \<^verbatim>\<open>request->newMetadata\<close>; the final \<^verbatim>\<open>BUG_ON\<close> compares the offset
  reached with \<^verbatim>\<open>UDS_ADVICE_SIZE\<close> and is the \<open>None\<close> branch.
\<close>

definition encode_uds_advice :: "UdsRequest \<Rightarrow> DataLocation \<Rightarrow> UdsRequest option" where
  "encode_uds_advice request advice =
     (let offset = 0;
          encoding = data (newMetadata request);
          encoding = encoding[offset := UDS_ADVICE_VERSION];
          offset = offset + 1;
          encoding = encoding[offset := state advice];
          offset = offset + 1;
          (encoding, offset) = encodeUInt64LE encoding offset (pbn advice)
      in if offset \<noteq> UDS_ADVICE_SIZE then None
         else Some (request\<lparr>newMetadata := \<lparr>data = encoding\<rparr>\<rparr>))"

text \<open>
  \<^verbatim>\<open>decode_uds_advice\<close> (lines 203-221): \<open>Inr\<close> is the C function returning true
  with the advice it stored, \<open>Inl\<close> is it returning false; \<open>Inl (Some v)\<close> is the
  branch that logs "invalid UDS advice version code v". The outer \<open>None\<close> is the
  \<^verbatim>\<open>BUG_ON\<close>.
\<close>

definition decode_uds_advice :: "UdsRequest \<Rightarrow> (byte option + DataLocation) option" where
  "decode_uds_advice request =
     (if status request \<noteq> UDS_SUCCESS \<or> \<not> found request then Some (Inl None)
      else
        let offset = 0;
            encoding = data (oldMetadata request);
            version = encoding ! offset;
            offset = offset + 1
        in if version \<noteq> UDS_ADVICE_VERSION then Some (Inl (Some version))
           else
             let advice_state = encoding ! offset;
                 offset = offset + 1;
                 (advice_pbn, offset) = decodeUInt64LE encoding offset
             in if offset \<noteq> UDS_ADVICE_SIZE then None
                else Some (Inr \<lparr>pbn = advice_pbn, state = advice_state\<rparr>))"

text \<open>A request whose two metadata slots hold sixteen zero bytes, to run the codec on.\<close>

definition example_request :: UdsRequest where
  "example_request =
     \<lparr>chunkName = [], request_type = UDS_POST, update = True, status = UDS_SUCCESS,
      found = True, oldMetadata = \<lparr>data = replicate 16 0\<rparr>,
      newMetadata = \<lparr>data = replicate 16 0\<rparr>\<rparr>"

subsection \<open>Timeout tunables\<close>

text \<open>
  The module's globals (lines 151-157): the two intervals in milliseconds and their
  values in jiffies.
\<close>

record albireo_globals =
  albireo_timeout_interval :: uint32
  min_albireo_timer_interval :: uint32
  albireo_timeout_jiffies :: Jiffies
  min_albireo_timer_jiffies :: Jiffies

text \<open>The initial values of the globals (lines 152-157).\<close>

definition initial_globals :: albireo_globals where
  "initial_globals =
     \<lparr>albireo_timeout_interval = 5000, min_albireo_timer_interval = 100,
      albireo_timeout_jiffies = 0, min_albireo_timer_jiffies = 0\<rparr>"

text \<open>
  \<^verbatim>\<open>msecs_to_jiffies\<close> and \<^verbatim>\<open>jiffies_to_msecs\<close> belong to the Linux kernel and depend
  on its tick rate. They are parameters of every function that calls them.
\<close>

record kernel_time =
  msecs_to_jiffies :: "uint32 \<Rightarrow> Jiffies"
  jiffies_to_msecs :: "Jiffies \<Rightarrow> uint32"

text \<open>
  The kernel's conversions for a tick rate \<open>HZ\<close> that divides 1000: a jiffy lasts
  \<open>1000 div HZ\<close> milliseconds and \<^verbatim>\<open>msecs_to_jiffies\<close> rounds up. An instance of
  \<^typ>\<open>kernel_time\<close> to run the model on.
\<close>

definition linux_time :: "nat \<Rightarrow> kernel_time" where
  "linux_time HZ =
     \<lparr>msecs_to_jiffies = (\<lambda>m. of_nat ((unat m + (1000 div HZ) - 1) div (1000 div HZ))),
      jiffies_to_msecs = (\<lambda>j. of_nat ((1000 div HZ) * unat j))\<rparr>"

text \<open>\<^verbatim>\<open>set_albireo_timeout_interval\<close> (lines 238-252).\<close>

definition set_albireo_timeout_interval ::
    "kernel_time \<Rightarrow> uint32 \<Rightarrow> albireo_globals \<Rightarrow> albireo_globals" where
  "set_albireo_timeout_interval kt v g =
     (let v = (if v > 120000 then 120000 else v);
          alb_jiffies = msecs_to_jiffies kt v;
          (alb_jiffies, v) =
            (if alb_jiffies < 2 then (2, jiffies_to_msecs kt 2) else (alb_jiffies, v))
      in g\<lparr>albireo_timeout_interval := v, albireo_timeout_jiffies := alb_jiffies\<rparr>)"

text \<open>\<^verbatim>\<open>set_min_albireo_timer_interval\<close> (lines 255-271).\<close>

definition set_min_albireo_timer_interval ::
    "kernel_time \<Rightarrow> uint32 \<Rightarrow> albireo_globals \<Rightarrow> albireo_globals" where
  "set_min_albireo_timer_interval kt v g =
     (let v = (if v > 1000 then 1000 else v);
          min_jiffies = msecs_to_jiffies kt v;
          (min_jiffies, v) =
            (if min_jiffies < 2 then (2, jiffies_to_msecs kt 2) else (min_jiffies, v))
      in g\<lparr>min_albireo_timer_interval := v, min_albireo_timer_jiffies := min_jiffies\<rparr>)"

subsection \<open>The coordinator's data\<close>

text \<open>
  \<^verbatim>\<open>struct periodic_event_reporter\<close> (lines 77-95). The field \<^verbatim>\<open>value\<close> is named
  \<open>reporter_value\<close> here.
\<close>

record periodic_event_reporter =
  last_reported_value :: uint64
  reporter_value :: uint64
  reporting_interval :: Jiffies
  work_item_queued :: uint32

text \<open>The work items the file puts on the index queue, named by their work function.\<close>

datatype work_item =
    CHANGE_DEDUPE_STATE
  | START_INDEX_OPERATION nat
  | SUSPEND_INDEX bool

text \<open>The calls the file makes to the index engine, as they appear in its call log.\<close>

datatype uds_call =
    UdsCreateLocalIndex
  | UdsRebuildLocalIndex
  | UdsGetIndexConfiguration
  | UdsCloseIndexSession
  | UdsStartChunkOperation nat

text \<open>
  \<^verbatim>\<open>struct dedupe_index\<close> (lines 99-127). Requests are named by natural numbers, and
  the intrusive list \<^verbatim>\<open>pending_head\<close> is the list of the requests linked on it, head
  first. \<open>pending_timer\<close> is the expiry the timer was last armed for by
  \<^verbatim>\<open>mod_timer\<close>. Of \<^verbatim>\<open>configuration\<close> only the nonce is read. \<open>uds_calls\<close> is not a
  field of the struct: it logs the calls made to the engine, oldest first.
\<close>

record dedupe_index =
  configuration_nonce :: uint64
  active :: uint32
  timeout_reporter :: periodic_event_reporter
  uds_queue :: "work_item list"
  maximum :: uint32
  index_state :: index_state
  index_target :: index_state
  changing :: bool
  create_flag :: bool
  dedupe_flag :: bool
  deduping :: bool
  error_flag :: bool
  pending_head :: "nat list"
  pending_timer :: "Jiffies option"
  started_timer :: bool
  uds_calls :: "uds_call list"

text \<open>
  \<^verbatim>\<open>struct dedupe_context\<close>, the part of a \<^verbatim>\<open>data_kvio\<close> the file works on. Its
  field \<^verbatim>\<open>status\<close> is named \<open>context_status\<close> here, as \<^verbatim>\<open>UdsRequest\<close> has a field
  of that name too.
\<close>

record dedupe_context =
  request_state :: request_state
  is_pending :: bool
  submission_time :: Jiffies
  context_status :: status_code
  uds_request :: UdsRequest
  chunk_name :: "byte list"

text \<open>
  Modelled from the spec: \<^verbatim>\<open>get_dedupe_advice\<close>, \<^verbatim>\<open>set_dedupe_advice\<close> and
  \<^verbatim>\<open>invoke_dedupe_callback\<close> belong to the data path, which is not among the
  sources. A request carries "advice slots (in/out)" and the data path receives "a
  single callback that consumes (status, advice?)". The outbound slot is the field
  \<open>dedupe_advice\<close> that \<open>get_dedupe_advice\<close> returns. Setting or clearing the inbound
  slot and invoking the callback are recorded, in the order they happen, in the log
  \<open>data_path\<close>; the callback entry holds the status the context has at that moment.
\<close>

record data_kvio =
  dedupe_context :: dedupe_context
  dedupe_advice :: DataLocation

datatype data_path_call =
    Set_dedupe_advice nat "DataLocation option"
  | Invoke_dedupe_callback nat status_code

text \<open>
  What the functions reach through \<^verbatim>\<open>kvio->layer\<close>: the index, the requests, the
  counter \<^verbatim>\<open>dedupeContextBusy\<close>, the module's globals, the expiry times of the
  reporter work items queued with \<^verbatim>\<open>enqueue_work_queue_delayed\<close> on the CPU queue,
  and the log of calls into the data path.
\<close>

record kernel_layer =
  dedupe_index :: dedupe_index
  data_kvios :: "nat \<Rightarrow> data_kvio"
  dedupeContextBusy :: uint64
  globals :: albireo_globals
  cpu_queue :: "Jiffies list"
  data_path :: "data_path_call list"

definition get_dedupe_advice :: "data_kvio \<Rightarrow> DataLocation" where
  "get_dedupe_advice dk = dedupe_advice dk"

definition set_dedupe_advice ::
    "nat \<Rightarrow> DataLocation option \<Rightarrow> kernel_layer \<Rightarrow> kernel_layer" where
  "set_dedupe_advice k advice s = s\<lparr>data_path := data_path s @ [Set_dedupe_advice k advice]\<rparr>"

definition invoke_dedupe_callback :: "nat \<Rightarrow> kernel_layer \<Rightarrow> kernel_layer" where
  "invoke_dedupe_callback k s =
     s\<lparr>data_path := data_path s
          @ [Invoke_dedupe_callback k (context_status (dedupe_context (data_kvios s k)))]\<rparr>"

text \<open>Reading and replacing the context of request \<open>k\<close>, and replacing the index.\<close>

definition context_of :: "kernel_layer \<Rightarrow> nat \<Rightarrow> dedupe_context" where
  "context_of s k = dedupe_context (data_kvios s k)"

definition set_context :: "nat \<Rightarrow> dedupe_context \<Rightarrow> kernel_layer \<Rightarrow> kernel_layer" where
  "set_context k c s = s\<lparr>data_kvios := (data_kvios s)(k := (data_kvios s k)\<lparr>dedupe_context := c\<rparr>)\<rparr>"

definition set_index :: "dedupe_index \<Rightarrow> kernel_layer \<Rightarrow> kernel_layer" where
  "set_index i s = s\<lparr>dedupe_index := i\<rparr>"

text \<open>
  Modelled from the spec: \<^verbatim>\<open>compareAndSwap32\<close> of the atomics header, which is not
  among the sources ("All transitions use compare-and-set"). Given the current value
  of the atomic, it returns whether the swap happened and the value afterwards.
\<close>

definition compareAndSwap32 ::
    "request_state \<Rightarrow> request_state \<Rightarrow> request_state \<Rightarrow> bool \<times> request_state" where
  "compareAndSwap32 current expected new =
     (if current = expected then (True, new) else (False, current))"

subsection \<open>Request completion\<close>

text \<open>
  \<^verbatim>\<open>finish_index_operation\<close> (lines 274-308), called with the request \<open>k\<close> whose
  \<^verbatim>\<open>uds_request\<close> the engine has filled in. \<open>None\<close> is the \<^verbatim>\<open>BUG_ON\<close> of
  \<^verbatim>\<open>decode_uds_advice\<close>.
\<close>

definition finish_index_operation :: "nat \<Rightarrow> kernel_layer \<Rightarrow> kernel_layer option" where
  "finish_index_operation k s =
     (let ctx = context_of s k;
          (swapped, rs) = compareAndSwap32 (request_state ctx) UR_BUSY UR_IDLE
      in if swapped then
           let ctx = ctx\<lparr>request_state := rs\<rparr>;
               index = dedupe_index s;
               (index, ctx) =
                 (if is_pending ctx
                  then (index\<lparr>pending_head := remove1 k (pending_head index)\<rparr>,
                        ctx\<lparr>is_pending := False\<rparr>)
                  else (index, ctx));
               ctx = ctx\<lparr>context_status := status (uds_request ctx)\<rparr>;
               s = set_context k ctx (set_index index s);
               advised =
                 (if request_type (uds_request ctx) = UDS_POST
                     \<or> request_type (uds_request ctx) = UDS_QUERY
                  then (case decode_uds_advice (uds_request ctx) of
                          None \<Rightarrow> None
                        | Some (Inr advice) \<Rightarrow> Some (set_dedupe_advice k (Some advice) s)
                        | Some (Inl _) \<Rightarrow> Some (set_dedupe_advice k None s))
                  else Some s)
           in (case advised of
                 None \<Rightarrow> None
               | Some s \<Rightarrow>
                   let s = invoke_dedupe_callback k s;
                       index = dedupe_index s
                   in Some (set_index (index\<lparr>active := active index - 1\<rparr>) s))
         else
           Some (set_context k
                  (ctx\<lparr>request_state :=
                         snd (compareAndSwap32 (request_state ctx) UR_TIMED_OUT UR_IDLE)\<rparr>) s))"

subsection \<open>Pending tracker and timeouts\<close>

text \<open>
  \<^verbatim>\<open>get_albireo_timeout\<close> (lines 231-235); \<open>now\<close> is the value of \<^verbatim>\<open>jiffies\<close> at
  the call. \<^verbatim>\<open>maxULong\<close> is the maximum of two unsigned longs.
\<close>

definition get_albireo_timeout :: "albireo_globals \<Rightarrow> Jiffies \<Rightarrow> Jiffies \<Rightarrow> Jiffies" where
  "get_albireo_timeout g now start_jiffies =
     max (start_jiffies + albireo_timeout_jiffies g) (now + min_albireo_timer_jiffies g)"

text \<open>\<^verbatim>\<open>start_expiration_timer\<close> (lines 351-360).\<close>

definition start_expiration_timer :: "Jiffies \<Rightarrow> nat \<Rightarrow> kernel_layer \<Rightarrow> kernel_layer" where
  "start_expiration_timer now k s =
     (let index = dedupe_index s
      in if \<not> started_timer index
         then set_index
                (index\<lparr>started_timer := True,
                       pending_timer :=
                         Some (get_albireo_timeout (globals s) now
                                 (submission_time (context_of s k)))\<rparr>) s
         else s)"

text \<open>
  \<^verbatim>\<open>start_index_operation\<close> (lines 363-382), the work item of request \<open>k\<close>.
  \<open>reply\<close> is what \<^verbatim>\<open>udsStartChunkOperation\<close> returns.
\<close>

definition start_index_operation ::
    "Jiffies \<Rightarrow> status_code \<Rightarrow> nat \<Rightarrow> kernel_layer \<Rightarrow> kernel_layer option" where
  "start_index_operation now reply k s =
     (let index = dedupe_index s;
          s = set_index (index\<lparr>pending_head := pending_head index @ [k]\<rparr>) s;
          s = set_context k ((context_of s k)\<lparr>is_pending := True\<rparr>) s;
          s = start_expiration_timer now k s;
          index = dedupe_index s;
          s = set_index (index\<lparr>uds_calls := uds_calls index @ [UdsStartChunkOperation k]\<rparr>) s
      in if reply \<noteq> UDS_SUCCESS
         then
           let ctx = context_of s k;
               s = set_context k (ctx\<lparr>uds_request := (uds_request ctx)\<lparr>status := reply\<rparr>\<rparr>) s
           in finish_index_operation k s
         else Some s)"

text \<open>\<^verbatim>\<open>report_events\<close> (lines 391-400), without the log line it prints.\<close>

definition report_events :: "periodic_event_reporter \<Rightarrow> periodic_event_reporter" where
  "report_events reporter =
     (let reporter = reporter\<lparr>work_item_queued := 0\<rparr>;
          new_value = reporter_value reporter;
          difference = new_value - last_reported_value reporter
      in if difference \<noteq> 0 then reporter\<lparr>last_reported_value := new_value\<rparr> else reporter)"

text \<open>\<^verbatim>\<open>report_dedupe_timeout\<close> (lines 435-445).\<close>

definition report_dedupe_timeout :: "Jiffies \<Rightarrow> kernel_layer \<Rightarrow> kernel_layer" where
  "report_dedupe_timeout now s =
     (let index = dedupe_index s;
          reporter = timeout_reporter index;
          reporter = reporter\<lparr>reporter_value := reporter_value reporter + 1\<rparr>;
          oldWorkItemQueued = work_item_queued reporter;
          reporter = reporter\<lparr>work_item_queued := 1\<rparr>;
          s = set_index (index\<lparr>timeout_reporter := reporter\<rparr>) s
      in if oldWorkItemQueued = 0
         then s\<lparr>cpu_queue := cpu_queue s @ [now + reporting_interval reporter]\<rparr>
         else s)"

text \<open>
  \<^verbatim>\<open>timeout_index_operations\<close> (lines 456-505). Its first loop (lines 471-486) runs
  under the pending lock: the list argument is \<^verbatim>\<open>index->pending_head\<close> as the loop
  finds it, \<open>expired\<close> is the local list \<^verbatim>\<open>expiredHead\<close>.
\<close>

fun timeout_scan ::
    "Jiffies \<Rightarrow> Jiffies \<Rightarrow> nat list \<Rightarrow> nat list \<Rightarrow> kernel_layer \<Rightarrow> nat list \<times> kernel_layer" where
  "timeout_scan earliest_submission_allowed now [] expired s = (expired, s)"
| "timeout_scan earliest_submission_allowed now (k # rest) expired s =
     (if earliest_submission_allowed \<le> submission_time (context_of s k)
      then (expired, start_expiration_timer now k s)
      else
        let s = set_index ((dedupe_index s)\<lparr>pending_head := rest\<rparr>) s;
            s = set_context k ((context_of s k)\<lparr>is_pending := False\<rparr>) s
        in timeout_scan earliest_submission_allowed now rest (expired @ [k]) s)"

text \<open>The second loop (lines 488-504), over the local list, outside the lock.\<close>

fun timeout_expired :: "Jiffies \<Rightarrow> nat list \<Rightarrow> kernel_layer \<Rightarrow> kernel_layer" where
  "timeout_expired now [] s = s"
| "timeout_expired now (k # rest) s =
     (let ctx = context_of s k;
          (swapped, rs) = compareAndSwap32 (request_state ctx) UR_BUSY UR_TIMED_OUT;
          s =
            (if swapped then
               let s = set_context k (ctx\<lparr>request_state := rs, context_status := ETIMEDOUT\<rparr>) s;
                   s = invoke_dedupe_callback k s;
                   index = dedupe_index s;
                   s = set_index (index\<lparr>active := active index - 1\<rparr>) s
               in report_dedupe_timeout now s
             else s)
      in timeout_expired now rest s)"

definition timeout_index_operations ::
    "kernel_time \<Rightarrow> Jiffies \<Rightarrow> kernel_layer \<Rightarrow> kernel_layer" where
  "timeout_index_operations kt now s =
     (let timeout_jiffies = msecs_to_jiffies kt (albireo_timeout_interval (globals s));
          earliest_submission_allowed = now - timeout_jiffies;
          s = set_index ((dedupe_index s)\<lparr>started_timer := False\<rparr>) s;
          (expired, s) =
            timeout_scan earliest_submission_allowed now (pending_head (dedupe_index s)) [] s
      in timeout_expired now expired s)"

subsection \<open>Request dispatcher\<close>

text \<open>
  \<^verbatim>\<open>enqueue_index_operation\<close> (lines 508-554) for request \<open>k\<close>; \<open>now\<close> is
  \<^verbatim>\<open>jiffies\<close>. The local \<^verbatim>\<open>kvio\<close> is set to \<^verbatim>\<open>NULL\<close> exactly on the path that
  enqueues, so the callback at the end runs on the two other paths. \<open>None\<close> is the
  \<^verbatim>\<open>BUG_ON\<close> of \<^verbatim>\<open>encode_uds_advice\<close>.
\<close>

definition enqueue_index_operation ::
    "Jiffies \<Rightarrow> nat \<Rightarrow> UdsCallbackType \<Rightarrow> kernel_layer \<Rightarrow> kernel_layer option" where
  "enqueue_index_operation now k operation s =
     (let ctx = (context_of s k)\<lparr>context_status := UDS_SUCCESS, submission_time := now\<rparr>;
          (swapped, rs) = compareAndSwap32 (request_state ctx) UR_IDLE UR_BUSY
      in if swapped then
           let ctx = ctx\<lparr>request_state := rs\<rparr>;
               request = (uds_request ctx)
                 \<lparr>chunkName := chunk_name ctx, request_type := operation, update := True\<rparr>;
               encoded =
                 (if operation = UDS_POST \<or> operation = UDS_UPDATE
                  then encode_uds_advice request (get_dedupe_advice (data_kvios s k))
                  else Some request)
           in (case encoded of
                 None \<Rightarrow> None
               | Some request \<Rightarrow>
                   let ctx = ctx\<lparr>uds_request := request\<rparr>;
                       index = dedupe_index s
                   in if deduping index then
                        let index = index\<lparr>uds_queue := uds_queue index @ [START_INDEX_OPERATION k]\<rparr>;
                            index = index\<lparr>active := active index + 1\<rparr>;
                            index = (if active index > maximum index
                                     then index\<lparr>maximum := active index\<rparr> else index)
                        in Some (set_context k ctx (set_index index s))
                      else
                        Some (invoke_dedupe_callback k
                               (set_context k (ctx\<lparr>request_state := UR_IDLE\<rparr>) s)))
         else
           Some (invoke_dedupe_callback k
                  (set_context k ctx (s\<lparr>dedupeContextBusy := dedupeContextBusy s + 1\<rparr>))))"

definition post_dedupe_advice :: "Jiffies \<Rightarrow> nat \<Rightarrow> kernel_layer \<Rightarrow> kernel_layer option" where
  "post_dedupe_advice now k s = enqueue_index_operation now k UDS_POST s"

definition query_dedupe_advice :: "Jiffies \<Rightarrow> nat \<Rightarrow> kernel_layer \<Rightarrow> kernel_layer option" where
  "query_dedupe_advice now k s = enqueue_index_operation now k UDS_QUERY s"

definition update_dedupe_advice :: "Jiffies \<Rightarrow> nat \<Rightarrow> kernel_layer \<Rightarrow> kernel_layer option" where
  "update_dedupe_advice now k s = enqueue_index_operation now k UDS_UPDATE s"

subsection \<open>Session state machine\<close>

text \<open>
  What the engine answers during one pass of the driver loop: the result of each
  call the pass can make, and the nonce of the configuration that
  \<^verbatim>\<open>udsGetIndexConfiguration\<close> reads back.
\<close>

record uds_reply =
  create_result :: status_code
  rebuild_result :: status_code
  configuration_result :: status_code
  configuration_read_nonce :: uint64
  close_result :: status_code

text \<open>
  \<^verbatim>\<open>close_session\<close> (lines 557-574) holds the state lock on entry, releases it around
  \<^verbatim>\<open>udsCloseIndexSession\<close> and holds it again on return. \<open>close_session_enter\<close> is the
  part before the lock is released, \<open>close_session_leave\<close> the part after it is taken
  again.
\<close>

definition close_session_enter :: "dedupe_index \<Rightarrow> dedupe_index" where
  "close_session_enter index = index\<lparr>index_state := IS_CHANGING\<rparr>"

definition close_session_leave :: "uds_reply \<Rightarrow> dedupe_index \<Rightarrow> dedupe_index" where
  "close_session_leave r index =
     (let index = index\<lparr>uds_calls := uds_calls index @ [UdsCloseIndexSession]\<rparr>;
          result = close_result r;
          index = index\<lparr>index_state := IS_CLOSED\<rparr>
      in index\<lparr>error_flag := (error_flag index \<or> result \<noteq> UDS_SUCCESS)\<rparr>)"

definition close_session :: "uds_reply \<Rightarrow> dedupe_index \<Rightarrow> dedupe_index" where
  "close_session r index = close_session_leave r (close_session_enter index)"

text \<open>
  \<^verbatim>\<open>open_session\<close> (lines 577-670), in the same three parts. \<open>open_session_enter\<close>
  (lines 580-587) returns the local \<^verbatim>\<open>create_flag\<close>. \<open>open_session_calls\<close> (lines
  588-639) runs without the lock and computes the locals \<^verbatim>\<open>result\<close> and
  \<^verbatim>\<open>next_create_flag\<close> and the engine calls made. \<open>open_session_leave\<close> (lines
  640-669) returns whether it took the failure branch, which releases the lock once
  more around its log line.
\<close>

definition open_session_enter :: "dedupe_index \<Rightarrow> bool \<times> dedupe_index" where
  "open_session_enter index =
     (create_flag index,
      index\<lparr>create_flag := False, index_state := IS_CHANGING, error_flag := False\<rparr>)"

definition open_session_calls ::
    "uds_reply \<Rightarrow> bool \<Rightarrow> uint64 \<Rightarrow> status_code \<times> bool \<times> uds_call list" where
  "open_session_calls r local_create_flag nonce =
     (if local_create_flag then (create_result r, False, [UdsCreateLocalIndex])
      else if rebuild_result r \<noteq> UDS_SUCCESS
      then (rebuild_result r, False, [UdsRebuildLocalIndex])
      else if configuration_result r \<noteq> UDS_SUCCESS
      then (configuration_result r, False,
            [UdsRebuildLocalIndex, UdsGetIndexConfiguration, UdsCloseIndexSession])
      else (UDS_SUCCESS, nonce \<noteq> configuration_read_nonce r,
            [UdsRebuildLocalIndex, UdsGetIndexConfiguration]))"

definition open_session_leave ::
    "bool \<Rightarrow> status_code \<Rightarrow> bool \<Rightarrow> dedupe_index \<Rightarrow> bool \<times> dedupe_index" where
  "open_session_leave local_create_flag result next_create_flag index =
     (let index = (if next_create_flag then index\<lparr>create_flag := True\<rparr> else index)
      in if \<not> local_create_flag
            \<and> (result = UDS_CORRUPT_COMPONENT \<or> result = UDS_NO_INDEX)
         then (False, index\<lparr>index_state := IS_CLOSED, create_flag := True\<rparr>)
         else if result = UDS_SUCCESS
         then (False, index\<lparr>index_state := IS_OPENED\<rparr>)
         else (True, index\<lparr>index_state := IS_CLOSED, index_target := IS_CLOSED,
                            error_flag := True\<rparr>))"

definition open_session :: "uds_reply \<Rightarrow> dedupe_index \<Rightarrow> dedupe_index" where
  "open_session r index =
     (let (local_create_flag, index) = open_session_enter index;
          (result, next_create_flag, calls) =
            open_session_calls r local_create_flag (configuration_nonce index);
          index = index\<lparr>uds_calls := uds_calls index @ calls\<rparr>
      in snd (open_session_leave local_create_flag result next_create_flag index))"

text \<open>
  \<^verbatim>\<open>change_dedupe_state\<close> (lines 673-694), run without another thread taking the
  state lock in between. The loop consumes one \<^typ>\<open>uds_reply\<close> per pass; \<open>None\<close>
  means that the replies given ran out before the loop ended.
\<close>

definition change_needed :: "dedupe_index \<Rightarrow> bool" where
  "change_needed index \<longleftrightarrow> index_state index \<noteq> index_target index \<or> create_flag index"

definition change_pass :: "uds_reply \<Rightarrow> dedupe_index \<Rightarrow> dedupe_index" where
  "change_pass r index =
     (if index_state index = IS_OPENED then close_session r index else open_session r index)"

fun change_dedupe_loop :: "uds_reply list \<Rightarrow> dedupe_index \<Rightarrow> dedupe_index option" where
  "change_dedupe_loop [] index = (if change_needed index then None else Some index)"
| "change_dedupe_loop (r # rs) index =
     (if change_needed index then change_dedupe_loop rs (change_pass r index)
      else Some index)"

definition change_dedupe_finish :: "dedupe_index \<Rightarrow> dedupe_index" where
  "change_dedupe_finish index =
     (let index = index\<lparr>changing := False\<rparr>
      in index\<lparr>deduping := (dedupe_flag index \<and> index_state index = IS_OPENED)\<rparr>)"

definition change_dedupe_state :: "uds_reply list \<Rightarrow> dedupe_index \<Rightarrow> dedupe_index option" where
  "change_dedupe_state rs index = map_option change_dedupe_finish (change_dedupe_loop rs index)"

text \<open>\<^verbatim>\<open>index_state_to_string\<close> (lines 160-177).\<close>

definition index_state_to_string :: "dedupe_index \<Rightarrow> index_state \<Rightarrow> string" where
  "index_state_to_string index st =
     (case st of
        IS_CLOSED \<Rightarrow> if error_flag index then ''error'' else ''closed''
      | IS_CHANGING \<Rightarrow> if index_target index = IS_OPENED then ''opening'' else ''closing''
      | IS_OPENED \<Rightarrow> if dedupe_flag index then ''online'' else ''offline'')"

text \<open>
  \<^verbatim>\<open>set_target_state\<close> (lines 697-737), all under the state lock. The log line for a
  changed state name is left out.
\<close>

definition set_target_state ::
    "index_state \<Rightarrow> bool \<Rightarrow> bool \<Rightarrow> bool \<Rightarrow> dedupe_index \<Rightarrow> dedupe_index" where
  "set_target_state target change_dedupe dedupe set_create index =
     (let index = (if change_dedupe then index\<lparr>dedupe_flag := dedupe\<rparr> else index);
          index = (if set_create then index\<lparr>create_flag := True\<rparr> else index)
      in if changing index then index\<lparr>index_target := target\<rparr>
         else if target \<noteq> index_target index \<or> set_create
         then index\<lparr>index_target := target, changing := True, deduping := False,
                    uds_queue := uds_queue index @ [CHANGE_DEDUPE_STATE]\<rparr>
         else index\<lparr>deduping := (dedupe_flag index \<and> index_state index = IS_OPENED)\<rparr>)"

text \<open>The entry points that call it (lines 833-873).\<close>

definition start_dedupe_index :: "bool \<Rightarrow> dedupe_index \<Rightarrow> dedupe_index" where
  "start_dedupe_index create index = set_target_state IS_OPENED True True create index"

definition stop_dedupe_index :: "dedupe_index \<Rightarrow> dedupe_index" where
  "stop_dedupe_index index = set_target_state IS_CLOSED False False False index"

text \<open>
  The index as \<^verbatim>\<open>make_dedupe_index\<close> (lines 960-1048) leaves it: allocated zeroed, the
  nonce taken from the geometry, the pending list empty and the reporter's interval
  set.
\<close>

definition make_dedupe_index :: "kernel_time \<Rightarrow> uint64 \<Rightarrow> dedupe_index" where
  "make_dedupe_index kt nonce =
     \<lparr>configuration_nonce = nonce, active = 0,
      timeout_reporter =
        \<lparr>last_reported_value = 0, reporter_value = 0,
         reporting_interval = msecs_to_jiffies kt 1000, work_item_queued = 0\<rparr>,
      uds_queue = [], maximum = 0, index_state = IS_CLOSED, index_target = IS_CLOSED,
      changing = False, create_flag = False, dedupe_flag = False, deduping = False,
      error_flag = False, pending_head = [], pending_timer = None, started_timer = False,
      uds_calls = []\<rparr>"

text \<open>
  The driver and the callers of \<^verbatim>\<open>set_target_state\<close> run on different threads. Every
  stretch of code between taking and releasing the state lock is one step, and
  \<open>driver_pc\<close> says where the index queue's worker stands between two steps of
  \<^verbatim>\<open>change_dedupe_state\<close>: not in it, inside \<^verbatim>\<open>udsCloseIndexSession\<close>, inside the
  engine calls of \<^verbatim>\<open>open_session\<close> (with the local \<^verbatim>\<open>create_flag\<close>), or at the log
  line of its failure branch.
\<close>

datatype driver_pc = DRIVER_IDLE | DRIVER_CLOSING | DRIVER_OPENING bool | DRIVER_LOGGING

text \<open>
  The head of the loop with the lock held (lines 682-693): either the loop ends and
  the function returns, or the next pass runs up to the point where it releases the
  lock.
\<close>

definition driver_loop_head :: "dedupe_index \<Rightarrow> driver_pc \<times> dedupe_index" where
  "driver_loop_head index =
     (if change_needed index
      then if index_state index = IS_OPENED
           then (DRIVER_CLOSING, close_session_enter index)
           else (let (local_create_flag, index) = open_session_enter index
                 in (DRIVER_OPENING local_create_flag, index))
      else (DRIVER_IDLE, change_dedupe_finish index))"

inductive reachable :: "kernel_time \<Rightarrow> uint64 \<Rightarrow> driver_pc \<times> dedupe_index \<Rightarrow> bool"
  for kt :: kernel_time and nonce :: uint64 where
  made: "reachable kt nonce (DRIVER_IDLE, make_dedupe_index kt nonce)"
| target:
    "reachable kt nonce (pc, index) \<Longrightarrow>
     reachable kt nonce (pc, set_target_state t change_dedupe dedupe set_create index)"
| work:
    "reachable kt nonce (DRIVER_IDLE, index) \<Longrightarrow>
     CHANGE_DEDUPE_STATE \<in> set (uds_queue index) \<Longrightarrow>
     reachable kt nonce
       (driver_loop_head (index\<lparr>uds_queue := remove1 CHANGE_DEDUPE_STATE (uds_queue index)\<rparr>))"
| closed:
    "reachable kt nonce (DRIVER_CLOSING, index) \<Longrightarrow>
     reachable kt nonce (driver_loop_head (close_session_leave r index))"
| opened:
    "reachable kt nonce (DRIVER_OPENING local_create_flag, index) \<Longrightarrow>
     open_session_calls r local_create_flag (configuration_nonce index)
       = (result, next_create_flag, calls) \<Longrightarrow>
     open_session_leave local_create_flag result next_create_flag
       (index\<lparr>uds_calls := uds_calls index @ calls\<rparr>) = (failed, index') \<Longrightarrow>
     reachable kt nonce (if failed then (DRIVER_LOGGING, index') else driver_loop_head index')"
| logged:
    "reachable kt nonce (DRIVER_LOGGING, index) \<Longrightarrow>
     reachable kt nonce (driver_loop_head index)"

text \<open>
  What holds of the flags between any two steps: \<open>changing\<close> is set exactly while the
  driver's work item is queued or running, at most one such item exists, and
  \<open>deduping\<close> is set only while no change is under way, the dedupe flag is set and
  the index is open.
\<close>

definition driver_invariant :: "driver_pc \<times> dedupe_index \<Rightarrow> bool" where
  "driver_invariant c \<longleftrightarrow>
     (case c of (pc, index) \<Rightarrow>
        (deduping index \<longrightarrow> dedupe_flag index \<and> index_state index = IS_OPENED)
      \<and> (changing index \<longleftrightarrow> pc \<noteq> DRIVER_IDLE \<or> CHANGE_DEDUPE_STATE \<in> set (uds_queue index))
      \<and> (changing index \<longrightarrow> \<not> deduping index)
      \<and> (pc \<noteq> DRIVER_IDLE \<longrightarrow> CHANGE_DEDUPE_STATE \<notin> set (uds_queue index))
      \<and> distinct (uds_queue index))"

text \<open>
  A run to try the model on: an engine that answers every call with success and
  reads back the nonce \<open>n\<close>, and the index of a device with nonce 1 at the moment
  the worker has taken the driver's work item off the queue after
  \<^verbatim>\<open>start_dedupe_index\<close>.
\<close>

definition uds_reply_success :: "uint64 \<Rightarrow> uds_reply" where
  "uds_reply_success n =
     \<lparr>create_result = UDS_SUCCESS, rebuild_result = UDS_SUCCESS,
      configuration_result = UDS_SUCCESS, configuration_read_nonce = n,
      close_result = UDS_SUCCESS\<rparr>"

definition started_index :: "bool \<Rightarrow> dedupe_index" where
  "started_index create =
     (start_dedupe_index create (make_dedupe_index (linux_time 250) 1))\<lparr>uds_queue := []\<rparr>"

text \<open>
  Requests and a layer to run the dispatcher and the timer on: every request is in
  the given state with the given status, its outbound advice is \<open>(7, 42)\<close>; the
  globals are those of a kernel with 1000 ticks a second after the timeout was set
  to 5 ms and the minimal timer interval to 2 ms.
\<close>

definition example_kvio :: "request_state \<Rightarrow> status_code \<Rightarrow> Jiffies \<Rightarrow> data_kvio" where
  "example_kvio rs st t =
     \<lparr>dedupe_context =
        \<lparr>request_state = rs, is_pending = False, submission_time = t, context_status = st,
         uds_request = example_request, chunk_name = []\<rparr>,
      dedupe_advice = \<lparr>pbn = 42, state = 7\<rparr>\<rparr>"

definition example_globals :: albireo_globals where
  "example_globals =
     set_min_albireo_timer_interval (linux_time 1000) 2
       (set_albireo_timeout_interval (linux_time 1000) 5 initial_globals)"

definition example_layer :: "dedupe_index \<Rightarrow> (nat \<Rightarrow> data_kvio) \<Rightarrow> kernel_layer" where
  "example_layer index kvios =
     \<lparr>dedupe_index = index, data_kvios = kvios, dedupeContextBusy = 0,
      globals = example_globals, cpu_queue = [], data_path = []\<rparr>"

text \<open>
  To state what the timer does: the requests among \<open>ks\<close> that are \<open>UR_BUSY\<close> in
  \<open>s\<close>, and whether an entry of the data-path log is a callback of request \<open>k\<close>.
\<close>

definition timed_out :: "kernel_layer \<Rightarrow> nat list \<Rightarrow> nat list" where
  "timed_out s ks = filter (\<lambda>k. request_state (context_of s k) = UR_BUSY) ks"

fun is_callback_of :: "nat \<Rightarrow> data_path_call \<Rightarrow> bool" where
  "is_callback_of k (Invoke_dedupe_callback j st) = (j = k)"
| "is_callback_of k (Set_dedupe_advice j a) = False"

text \<open>
  A layer with two requests in flight, submitted at times 0 and 4, both on the
  pending list with the timer armed for time 5.
\<close>

definition pending_kvio :: "Jiffies \<Rightarrow> data_kvio" where
  "pending_kvio t =
     \<lparr>dedupe_context =
        \<lparr>request_state = UR_BUSY, is_pending = True, submission_time = t,
         context_status = UDS_SUCCESS, uds_request = example_request, chunk_name = []\<rparr>,
      dedupe_advice = \<lparr>pbn = 42, state = 7\<rparr>\<rparr>"

definition pending_layer :: kernel_layer where
  "pending_layer =
     example_layer
       ((started_index True)\<lparr>active := 2, pending_head := [0, 1], pending_timer := Some 5,
                              started_timer := True\<rparr>)
       (\<lambda>k. if k = 0 then pending_kvio 0 else pending_kvio 4)"

section \<open>Properties\<close>

subsection \<open>Advice codec\<close>

lemma le_bytes_8:
  "le_bytes 8 v =
     [ucast v, ucast (drop_bit 8 v), ucast (drop_bit 16 v), ucast (drop_bit 24 v),
      ucast (drop_bit 32 v), ucast (drop_bit 40 v), ucast (drop_bit 48 v),
      ucast (drop_bit 56 v)]"
proof -
  have "(8::nat) = Suc (Suc (Suc (Suc (Suc (Suc (Suc (Suc 0)))))))"
    by simp
  then have "le_bytes 8 v = le_bytes (Suc (Suc (Suc (Suc (Suc (Suc (Suc (Suc 0)))))))) v"
    by (rule arg_cong)
  then show ?thesis
    by simp
qed

lemma length_le_bytes: "length (le_bytes n v) = n"
  by (induction n arbitrary: v) auto

lemma low_byte_join:
  "(ucast (ucast w :: byte) :: uint64) OR push_bit 8 (take_bit n (drop_bit 8 w))
     = take_bit (n + 8) w"
  by (rule bit_word_eqI) (auto simp: bit_simps)

lemma le_value_le_bytes: "le_value (le_bytes n v) = take_bit (8 * n) v"
proof (induction n arbitrary: v)
  case 0
  show ?case by simp
next
  case (Suc n)
  have "le_value (le_bytes (Suc n) v)
          = ucast (ucast v :: byte) OR push_bit 8 (take_bit (8 * n) (drop_bit 8 v))"
    by (simp add: Suc.IH)
  also have "\<dots> = take_bit (8 * n + 8) v"
    by (rule low_byte_join)
  finally show ?case
    by (simp add: add.commute)
qed

lemma le_value_le_bytes_8: "le_value (le_bytes 8 v) = v"
  by (simp add: le_value_le_bytes take_bit_word_eq_self)

lemma encode_uds_advice_bytes:
  assumes len: "length (data (newMetadata request)) = UDS_MAX_BLOCK_DATA_SIZE"
  shows "encode_uds_advice request advice =
           Some (request\<lparr>newMetadata :=
             \<lparr>data = [UDS_ADVICE_VERSION, state advice] @ le_bytes 8 (pbn advice)
                       @ drop 10 (data (newMetadata request))\<rparr>\<rparr>)"
proof -
  obtain b0 b1 rest where d: "data (newMetadata request) = b0 # b1 # rest"
    using len by (cases "data (newMetadata request)"; cases "tl (data (newMetadata request))")
      (auto simp: UDS_MAX_BLOCK_DATA_SIZE_def)
  show ?thesis
    by (simp add: encode_uds_advice_def encodeUInt64LE_def UDS_ADVICE_SIZE_def d Let_def)
qed

lemma decode_of_bytes:
  assumes "status q = UDS_SUCCESS" "found q"
    and "data (oldMetadata q) = [UDS_ADVICE_VERSION, s] @ le_bytes 8 p @ rest"
  shows "decode_uds_advice q = Some (Inr \<lparr>pbn = p, state = s\<rparr>)"
  using assms
  by (simp add: decode_uds_advice_def decodeUInt64LE_def UDS_ADVICE_SIZE_def Let_def
      length_le_bytes le_value_le_bytes_8)

text \<open>
  C4. Encoding an advice \<open>(s, p)\<close> into a request writes exactly ten bytes into
  \<^verbatim>\<open>newMetadata\<close>: the version 2, the state byte \<open>s\<close>, then the eight bytes of
  \<open>p\<close> from the least significant to the most significant; the six bytes behind
  them and every other field of the request stay as they were. Decoding any
  request that is marked successful and found and carries these bytes as its
  \<^verbatim>\<open>oldMetadata\<close> gives back exactly \<open>(s, p)\<close>, for every byte \<open>s\<close> and every
  64-bit \<open>p\<close>.
\<close>

theorem advice_roundtrip:
  assumes "length (data (newMetadata request)) = UDS_MAX_BLOCK_DATA_SIZE"
  shows "\<exists>r. encode_uds_advice request \<lparr>pbn = p, state = s\<rparr> = Some r
           \<and> r = request\<lparr>newMetadata := newMetadata r\<rparr>
           \<and> length (data (newMetadata r)) = UDS_MAX_BLOCK_DATA_SIZE
           \<and> take UDS_ADVICE_SIZE (data (newMetadata r)) =
               [2, s, ucast p, ucast (drop_bit 8 p), ucast (drop_bit 16 p),
                ucast (drop_bit 24 p), ucast (drop_bit 32 p), ucast (drop_bit 40 p),
                ucast (drop_bit 48 p), ucast (drop_bit 56 p)]
           \<and> drop UDS_ADVICE_SIZE (data (newMetadata r)) =
               drop UDS_ADVICE_SIZE (data (newMetadata request))
           \<and> (\<forall>q. status q = UDS_SUCCESS \<and> found q \<and> oldMetadata q = newMetadata r
                 \<longrightarrow> decode_uds_advice q = Some (Inr \<lparr>pbn = p, state = s\<rparr>))"
proof -
  let ?r = "request\<lparr>newMetadata :=
             \<lparr>data = [UDS_ADVICE_VERSION, s] @ le_bytes 8 p
                       @ drop 10 (data (newMetadata request))\<rparr>\<rparr>"
  have enc: "encode_uds_advice request \<lparr>pbn = p, state = s\<rparr> = Some ?r"
    using encode_uds_advice_bytes [OF assms, of "\<lparr>pbn = p, state = s\<rparr>"] by simp
  have dec: "decode_uds_advice q = Some (Inr \<lparr>pbn = p, state = s\<rparr>)"
    if "status q = UDS_SUCCESS \<and> found q \<and> oldMetadata q = newMetadata ?r" for q
    using that by (intro decode_of_bytes [where rest = "drop 10 (data (newMetadata request))"]) simp_all
  have bytes: "take UDS_ADVICE_SIZE (data (newMetadata ?r)) =
               [2, s, ucast p, ucast (drop_bit 8 p), ucast (drop_bit 16 p),
                ucast (drop_bit 24 p), ucast (drop_bit 32 p), ucast (drop_bit 40 p),
                ucast (drop_bit 48 p), ucast (drop_bit 56 p)]"
    by (simp add: UDS_ADVICE_SIZE_def UDS_ADVICE_VERSION_def le_bytes_8)
  have rest: "drop UDS_ADVICE_SIZE (data (newMetadata ?r)) =
               drop UDS_ADVICE_SIZE (data (newMetadata request))"
    by (simp add: UDS_ADVICE_SIZE_def length_le_bytes)
  have len: "length (data (newMetadata ?r)) = UDS_MAX_BLOCK_DATA_SIZE"
    using assms by (simp add: UDS_MAX_BLOCK_DATA_SIZE_def length_le_bytes)
  show ?thesis
    using enc dec bytes rest len by (intro exI [of _ ?r]) (simp only: simp_thms, simp)
qed


theorem advice_roundtrip_witness:
  "length (data (newMetadata example_request)) = UDS_MAX_BLOCK_DATA_SIZE
   \<and> (\<exists>r. encode_uds_advice example_request \<lparr>pbn = 42, state = 7\<rparr> = Some r
          \<and> take UDS_ADVICE_SIZE (data (newMetadata r)) = [2, 7, 42, 0, 0, 0, 0, 0, 0, 0]
          \<and> decode_uds_advice (example_request\<lparr>oldMetadata := newMetadata r\<rparr>)
                = Some (Inr \<lparr>pbn = 42, state = 7\<rparr>))"
proof -
  have len: "length (data (newMetadata example_request)) = UDS_MAX_BLOCK_DATA_SIZE"
    by (simp add: example_request_def UDS_MAX_BLOCK_DATA_SIZE_def)
  obtain r where enc: "encode_uds_advice example_request \<lparr>pbn = 42, state = 7\<rparr> = Some r"
    and bytes: "take UDS_ADVICE_SIZE (data (newMetadata r)) =
               [2, 7, ucast (42 :: uint64), ucast (drop_bit 8 (42 :: uint64)),
                ucast (drop_bit 16 (42 :: uint64)), ucast (drop_bit 24 (42 :: uint64)),
                ucast (drop_bit 32 (42 :: uint64)), ucast (drop_bit 40 (42 :: uint64)),
                ucast (drop_bit 48 (42 :: uint64)), ucast (drop_bit 56 (42 :: uint64))]"
    and dec: "\<forall>q. status q = UDS_SUCCESS \<and> found q \<and> oldMetadata q = newMetadata r
                 \<longrightarrow> decode_uds_advice q = Some (Inr \<lparr>pbn = 42, state = 7\<rparr>)"
    using advice_roundtrip [OF len, of 42 7] by blast
  have "decode_uds_advice (example_request\<lparr>oldMetadata := newMetadata r\<rparr>)
          = Some (Inr \<lparr>pbn = 42, state = 7\<rparr>)"
    using dec by (simp add: example_request_def)
  moreover have "take UDS_ADVICE_SIZE (data (newMetadata r)) = [2, 7, 42, 0, 0, 0, 0, 0, 0, 0]"
    using bytes by simp
  ultimately show ?thesis
    using len enc by simp
qed

text \<open>
  C5. \<^verbatim>\<open>decode_uds_advice\<close> returns advice only for a request whose status is
  success, that the index reported as found and whose first metadata byte is 2.
  A request that failed or was not found yields no advice, and so does a payload
  whose first byte is not 2 (the branch that logs the version code).
\<close>

theorem decode_uds_advice_only_valid:
  "(\<forall>a. decode_uds_advice q = Some (Inr a) \<longrightarrow>
        status q = UDS_SUCCESS \<and> found q \<and> data (oldMetadata q) ! 0 = 2)
   \<and> (status q \<noteq> UDS_SUCCESS \<or> \<not> found q \<longrightarrow> decode_uds_advice q = Some (Inl None))
   \<and> (status q = UDS_SUCCESS \<and> found q \<and> data (oldMetadata q) ! 0 \<noteq> 2 \<longrightarrow>
        decode_uds_advice q = Some (Inl (Some (data (oldMetadata q) ! 0))))"
  by (auto simp: decode_uds_advice_def decodeUInt64LE_def UDS_ADVICE_SIZE_def
      UDS_ADVICE_VERSION_def Let_def split: if_splits)

theorem decode_uds_advice_only_valid_witness:
  "decode_uds_advice (example_request\<lparr>oldMetadata := \<lparr>data = 1 # replicate 15 0\<rparr>\<rparr>)
     = Some (Inl (Some 1))
   \<and> decode_uds_advice (example_request\<lparr>found := False, oldMetadata := \<lparr>data = 2 # replicate 15 0\<rparr>\<rparr>)
     = Some (Inl None)
   \<and> decode_uds_advice (example_request\<lparr>status := OTHER_ERROR 5, oldMetadata := \<lparr>data = 2 # replicate 15 0\<rparr>\<rparr>)
     = Some (Inl None)"
  using decode_uds_advice_only_valid [of "example_request\<lparr>oldMetadata := \<lparr>data = 1 # replicate 15 0\<rparr>\<rparr>"]
    decode_uds_advice_only_valid [of "example_request\<lparr>found := False, oldMetadata := \<lparr>data = 2 # replicate 15 0\<rparr>\<rparr>"]
    decode_uds_advice_only_valid [of "example_request\<lparr>status := OTHER_ERROR 5, oldMetadata := \<lparr>data = 2 # replicate 15 0\<rparr>\<rparr>"]
  by (simp add: example_request_def)

subsection \<open>Timeout tunables\<close>

lemma set_albireo_timeout_interval_cases:
  "set_albireo_timeout_interval kt v g =
      (if msecs_to_jiffies kt (min v 120000) < 2
       then g\<lparr>albireo_timeout_interval := jiffies_to_msecs kt 2, albireo_timeout_jiffies := 2\<rparr>
       else g\<lparr>albireo_timeout_interval := min v 120000,
              albireo_timeout_jiffies := msecs_to_jiffies kt (min v 120000)\<rparr>)"
proof -
  have a: "(if v > 120000 then 120000 else v) = min v 120000"
    by (auto simp: min_def)
  show ?thesis
    unfolding set_albireo_timeout_interval_def Let_def a by simp
qed

lemma set_min_albireo_timer_interval_cases:
  "set_min_albireo_timer_interval kt v g =
      (if msecs_to_jiffies kt (min v 1000) < 2
       then g\<lparr>min_albireo_timer_interval := jiffies_to_msecs kt 2, min_albireo_timer_jiffies := 2\<rparr>
       else g\<lparr>min_albireo_timer_interval := min v 1000,
              min_albireo_timer_jiffies := msecs_to_jiffies kt (min v 1000)\<rparr>)"
proof -
  have b: "(if v > 1000 then 1000 else v) = min v 1000"
    by (auto simp: min_def)
  show ?thesis
    unfolding set_min_albireo_timer_interval_def Let_def b by simp
qed

text \<open>
  C9. For every input value, \<^verbatim>\<open>set_albireo_timeout_interval\<close> stores at most 120000
  ms and at least two jiffies, and \<^verbatim>\<open>set_min_albireo_timer_interval\<close> stores at most
  1000 ms and at least two jiffies. The value is first cut to the cap; when the cut
  value converts to two jiffies or more it is stored with its conversion, otherwise
  two jiffies are stored together with their length in milliseconds. The kernel's
  conversions are parameters; the only fact used about them is that two jiffies
  last at most 1000 ms.
\<close>

theorem timeout_tunables_bounded:
  assumes "jiffies_to_msecs kt 2 \<le> 1000"
  shows "albireo_timeout_interval (set_albireo_timeout_interval kt v g) \<le> 120000
       \<and> 2 \<le> albireo_timeout_jiffies (set_albireo_timeout_interval kt v g)
       \<and> (2 \<le> msecs_to_jiffies kt (min v 120000) \<longrightarrow>
            albireo_timeout_interval (set_albireo_timeout_interval kt v g) = min v 120000
          \<and> albireo_timeout_jiffies (set_albireo_timeout_interval kt v g)
              = msecs_to_jiffies kt (min v 120000))
       \<and> (msecs_to_jiffies kt (min v 120000) < 2 \<longrightarrow>
            albireo_timeout_interval (set_albireo_timeout_interval kt v g)
              = jiffies_to_msecs kt 2
          \<and> albireo_timeout_jiffies (set_albireo_timeout_interval kt v g) = 2)
       \<and> min_albireo_timer_interval (set_min_albireo_timer_interval kt v g) \<le> 1000
       \<and> 2 \<le> min_albireo_timer_jiffies (set_min_albireo_timer_interval kt v g)
       \<and> (2 \<le> msecs_to_jiffies kt (min v 1000) \<longrightarrow>
            min_albireo_timer_interval (set_min_albireo_timer_interval kt v g) = min v 1000
          \<and> min_albireo_timer_jiffies (set_min_albireo_timer_interval kt v g)
              = msecs_to_jiffies kt (min v 1000))
       \<and> (msecs_to_jiffies kt (min v 1000) < 2 \<longrightarrow>
            min_albireo_timer_interval (set_min_albireo_timer_interval kt v g)
              = jiffies_to_msecs kt 2
          \<and> min_albireo_timer_jiffies (set_min_albireo_timer_interval kt v g) = 2)"
proof -
  have le: "jiffies_to_msecs kt 2 \<le> 120000"
    using assms by (rule order_trans) simp
  define c where "c = min v 120000"
  define d where "d = min v 1000"
  define jc where "jc = msecs_to_jiffies kt c"
  define jd where "jd = msecs_to_jiffies kt d"
  have c: "c \<le> 120000" and d: "d \<le> 1000"
    by (simp_all add: c_def d_def)
  have t: "set_albireo_timeout_interval kt v g =
      (if jc < 2
       then g\<lparr>albireo_timeout_interval := jiffies_to_msecs kt 2, albireo_timeout_jiffies := 2\<rparr>
       else g\<lparr>albireo_timeout_interval := c, albireo_timeout_jiffies := jc\<rparr>)"
    unfolding jc_def c_def by (rule set_albireo_timeout_interval_cases)
  have m: "set_min_albireo_timer_interval kt v g =
      (if jd < 2
       then g\<lparr>min_albireo_timer_interval := jiffies_to_msecs kt 2, min_albireo_timer_jiffies := 2\<rparr>
       else g\<lparr>min_albireo_timer_interval := d, min_albireo_timer_jiffies := jd\<rparr>)"
    unfolding jd_def d_def by (rule set_min_albireo_timer_interval_cases)
  have p1: "jc < 2 \<or> 2 \<le> jc" and p2: "jd < 2 \<or> 2 \<le> jd"
    by auto
  show ?thesis
    unfolding c_def [symmetric] d_def [symmetric] jc_def [symmetric] jd_def [symmetric] t m
    using le assms c d p1 p2 by auto
qed

theorem timeout_tunables_bounded_witness:
  "jiffies_to_msecs (linux_time 250) 2 \<le> 1000
   \<and> set_albireo_timeout_interval (linux_time 250) 0 initial_globals
       = initial_globals\<lparr>albireo_timeout_interval := 8, albireo_timeout_jiffies := 2\<rparr>
   \<and> set_albireo_timeout_interval (linux_time 250) 1000000000 initial_globals
       = initial_globals\<lparr>albireo_timeout_interval := 120000,
                          albireo_timeout_jiffies := 30000\<rparr>
   \<and> min_albireo_timer_interval
         (set_min_albireo_timer_interval (linux_time 250) 5000 initial_globals) = 1000"
proof -
  have h: "jiffies_to_msecs (linux_time 250) 2 \<le> 1000"
    by (simp add: linux_time_def)
  have m0: "msecs_to_jiffies (linux_time 250) (min 0 120000) < 2"
    by (simp add: linux_time_def)
  have m1: "2 \<le> msecs_to_jiffies (linux_time 250) (min 1000000000 120000)"
    by (simp add: linux_time_def)
  have m2: "2 \<le> msecs_to_jiffies (linux_time 250) (min 5000 1000)"
    by (simp add: linux_time_def)
  show ?thesis
    using h m0 m1 m2 timeout_tunables_bounded [OF h, of 0 initial_globals]
      timeout_tunables_bounded [OF h, of 1000000000 initial_globals]
      timeout_tunables_bounded [OF h, of 5000 initial_globals]
    by (simp add: linux_time_def set_albireo_timeout_interval_def initial_globals_def)
qed


subsection \<open>Session state machine\<close>

lemma invariant_made: "driver_invariant (DRIVER_IDLE, make_dedupe_index kt nonce)"
  by (simp add: driver_invariant_def make_dedupe_index_def)

lemma invariant_target:
  "driver_invariant (pc, index) \<Longrightarrow>
   driver_invariant (pc, set_target_state t change_dedupe dedupe set_create index)"
  by (auto simp: driver_invariant_def set_target_state_def Let_def)

lemma invariant_loop_head:
  assumes "changing index" "\<not> deduping index"
    and "CHANGE_DEDUPE_STATE \<notin> set (uds_queue index)" "distinct (uds_queue index)"
  shows "driver_invariant (driver_loop_head index)"
  using assms
  by (auto simp: driver_invariant_def driver_loop_head_def close_session_enter_def
      open_session_enter_def change_dedupe_finish_def Let_def)

lemma invariant_work:
  assumes "driver_invariant (DRIVER_IDLE, index)"
    and "CHANGE_DEDUPE_STATE \<in> set (uds_queue index)"
  shows "driver_invariant
           (driver_loop_head (index\<lparr>uds_queue := remove1 CHANGE_DEDUPE_STATE (uds_queue index)\<rparr>))"
  using assms by (intro invariant_loop_head) (auto simp: driver_invariant_def)

lemma invariant_closed:
  assumes "driver_invariant (DRIVER_CLOSING, index)"
  shows "driver_invariant (driver_loop_head (close_session_leave r index))"
  using assms
  by (intro invariant_loop_head) (auto simp: driver_invariant_def close_session_leave_def Let_def)

lemma open_session_leave_fields:
  assumes "open_session_leave cf result ncf index = (failed, index')"
  shows "changing index' = changing index" "deduping index' = deduping index"
    "uds_queue index' = uds_queue index" "dedupe_flag index' = dedupe_flag index"
  using assms by (auto simp: open_session_leave_def Let_def split: if_splits)

lemma invariant_opened:
  assumes "driver_invariant (DRIVER_OPENING cf, index)"
    and "open_session_leave cf result ncf (index\<lparr>uds_calls := uds_calls index @ calls\<rparr>)
           = (failed, index')"
  shows "driver_invariant (if failed then (DRIVER_LOGGING, index') else driver_loop_head index')"
proof (cases failed)
  case True
  then show ?thesis
    using assms(1) open_session_leave_fields [OF assms(2)]
    by (simp add: driver_invariant_def)
next
  case False
  have "driver_invariant (driver_loop_head index')"
    using assms(1) open_session_leave_fields [OF assms(2)]
    by (intro invariant_loop_head) (simp_all add: driver_invariant_def)
  with False show ?thesis by simp
qed

lemma invariant_logged:
  assumes "driver_invariant (DRIVER_LOGGING, index)"
  shows "driver_invariant (driver_loop_head index)"
  using assms by (intro invariant_loop_head) (auto simp: driver_invariant_def)

lemma reachable_invariant: "reachable kt nonce c \<Longrightarrow> driver_invariant c"
proof (induction rule: reachable.induct)
  case made
  show ?case by (rule invariant_made)
next
  case (target pc index t change_dedupe dedupe set_create)
  then show ?case by (simp add: invariant_target)
next
  case (work index)
  then show ?case by (simp add: invariant_work)
next
  case (closed index r)
  then show ?case by (simp add: invariant_closed)
next
  case (opened local_create_flag index r result next_create_flag calls failed index')
  then show ?case by (simp only: invariant_opened)
next
  case (logged index)
  then show ?case by (simp add: invariant_logged)
qed

text \<open>
  C3. In every state reachable from the freshly made index through calls of
  \<^verbatim>\<open>set_target_state\<close>, runs of the driver work item and the steps of
  \<^verbatim>\<open>close_session\<close> and \<^verbatim>\<open>open_session\<close>, in any interleaving that the state lock
  allows, \<open>deduping\<close> implies that \<open>dedupe_flag\<close> is set and that the index is
  \<open>IS_OPENED\<close>; and while a state change is under way (\<open>changing\<close>), \<open>deduping\<close> is
  false.
\<close>

theorem deduping_implies_opened:
  assumes "reachable kt nonce (pc, index)"
  shows "(deduping index \<longrightarrow> dedupe_flag index \<and> index_state index = IS_OPENED)
       \<and> (changing index \<longrightarrow> \<not> deduping index)"
  using reachable_invariant [OF assms] by (simp add: driver_invariant_def)

lemma open_session_as_steps:
  "open_session r index =
     snd (open_session_leave (create_flag index)
            (fst (open_session_calls r (create_flag index) (configuration_nonce index)))
            (fst (snd (open_session_calls r (create_flag index) (configuration_nonce index))))
            ((snd (open_session_enter index))\<lparr>uds_calls := uds_calls index
               @ snd (snd (open_session_calls r (create_flag index) (configuration_nonce index)))\<rparr>))"
  by (simp add: open_session_def open_session_enter_def Let_def split: prod.splits)

lemma loop_head_pass:
  assumes "reachable kt nonce (driver_loop_head index)" "change_needed index"
  shows "reachable kt nonce (driver_loop_head (change_pass r index))"
proof (cases "index_state index = IS_OPENED")
  case True
  then have "reachable kt nonce (DRIVER_CLOSING, close_session_enter index)"
    using assms by (simp add: driver_loop_head_def)
  then have "reachable kt nonce (driver_loop_head (close_session_leave r (close_session_enter index)))"
    by (rule reachable.closed)
  then show ?thesis
    using True by (simp add: change_pass_def close_session_def)
next
  case False
  obtain result ncf calls where
    calls: "open_session_calls r (create_flag index) (configuration_nonce index) = (result, ncf, calls)"
    by (cases "open_session_calls r (create_flag index) (configuration_nonce index)") auto
  let ?e = "snd (open_session_enter index)"
  obtain failed index' where
    leave: "open_session_leave (create_flag index) result ncf (?e\<lparr>uds_calls := uds_calls ?e @ calls\<rparr>)
              = (failed, index')"
    by (cases "open_session_leave (create_flag index) result ncf (?e\<lparr>uds_calls := uds_calls ?e @ calls\<rparr>)") auto
  have nonce: "configuration_nonce ?e = configuration_nonce index"
    and ucalls: "uds_calls ?e = uds_calls index"
    by (simp_all add: open_session_enter_def)
  have "reachable kt nonce (DRIVER_OPENING (create_flag index), ?e)"
    using assms False by (simp add: driver_loop_head_def open_session_enter_def)
  then have step: "reachable kt nonce
      (if failed then (DRIVER_LOGGING, index') else driver_loop_head index')"
    using calls leave by (intro reachable.opened [where r = r]) (simp_all add: nonce)
  have "reachable kt nonce (driver_loop_head index')"
  proof (cases failed)
    case True
    with step have "reachable kt nonce (DRIVER_LOGGING, index')" by simp
    then show ?thesis by (rule reachable.logged)
  next
    case False
    with step show ?thesis by simp
  qed
  moreover have "open_session r index = index'"
    using calls leave by (simp add: open_session_as_steps ucalls)
  ultimately show ?thesis
    using False by (simp add: change_pass_def)
qed

lemma change_dedupe_state_reachable:
  assumes "reachable kt nonce (driver_loop_head index)"
    and "change_dedupe_state rs index = Some index'"
  shows "reachable kt nonce (DRIVER_IDLE, index')"
  using assms
proof (induction rs arbitrary: index)
  case Nil
  then show ?case
    by (auto simp: change_dedupe_state_def driver_loop_head_def split: if_splits)
next
  case (Cons r rs)
  show ?case
  proof (cases "change_needed index")
    case True
    have "reachable kt nonce (driver_loop_head (change_pass r index))"
      using Cons.prems(1) True by (rule loop_head_pass)
    moreover have "change_dedupe_state rs (change_pass r index) = Some index'"
      using Cons.prems(2) True by (simp add: change_dedupe_state_def)
    ultimately show ?thesis by (rule Cons.IH)
  next
    case False
    then show ?thesis
      using Cons.prems by (auto simp: change_dedupe_state_def driver_loop_head_def)
  qed
qed


lemmas session_defs =
  change_dedupe_state_def change_needed_def change_pass_def open_session_def
  open_session_enter_def open_session_calls_def open_session_leave_def close_session_def
  close_session_enter_def close_session_leave_def change_dedupe_finish_def

lemma started_index_eq:
  "started_index c =
     \<lparr>configuration_nonce = 1, active = 0,
      timeout_reporter =
        \<lparr>last_reported_value = 0, reporter_value = 0,
         reporting_interval = 250, work_item_queued = 0\<rparr>,
      uds_queue = [], maximum = 0, index_state = IS_CLOSED, index_target = IS_OPENED,
      changing = True, create_flag = c, dedupe_flag = True, deduping = False,
      error_flag = False, pending_head = [], pending_timer = None, started_timer = False,
      uds_calls = []\<rparr>"
  by (simp add: started_index_def start_dedupe_index_def set_target_state_def
      make_dedupe_index_def linux_time_def Let_def)

theorem deduping_implies_opened_witness:
  "(\<exists>index. change_dedupe_state [uds_reply_success 1] (started_index True) = Some index
      \<and> reachable (linux_time 250) 1 (DRIVER_IDLE, index)
      \<and> deduping index \<and> dedupe_flag index \<and> index_state index = IS_OPENED
      \<and> \<not> changing index)"
proof -
  let ?made = "make_dedupe_index (linux_time 250) 1"
  let ?started = "start_dedupe_index True ?made"
  obtain index where run: "change_dedupe_state [uds_reply_success 1] (started_index True) = Some index"
    and d: "deduping index"
    by (simp add: started_index_eq session_defs uds_reply_success_def Let_def)
  have "reachable (linux_time 250) 1 (DRIVER_IDLE, ?made)"
    by (rule reachable.made)
  then have "reachable (linux_time 250) 1 (DRIVER_IDLE, ?started)"
    unfolding start_dedupe_index_def by (rule reachable.target)
  moreover have "CHANGE_DEDUPE_STATE \<in> set (uds_queue ?started)"
    by (simp add: start_dedupe_index_def set_target_state_def make_dedupe_index_def Let_def)
  ultimately have "reachable (linux_time 250) 1
      (driver_loop_head (?started\<lparr>uds_queue := remove1 CHANGE_DEDUPE_STATE (uds_queue ?started)\<rparr>))"
    by (rule reachable.work)
  moreover have "?started\<lparr>uds_queue := remove1 CHANGE_DEDUPE_STATE (uds_queue ?started)\<rparr>
      = started_index True"
    by (simp add: started_index_def start_dedupe_index_def set_target_state_def
        make_dedupe_index_def Let_def)
  ultimately have "reachable (linux_time 250) 1 (driver_loop_head (started_index True))"
    by simp
  then have r: "reachable (linux_time 250) 1 (DRIVER_IDLE, index)"
    using run by (rule change_dedupe_state_reachable)
  show ?thesis
    using deduping_implies_opened [OF r] run r d by simp
qed


lemma open_session_rebuild_failed:
  assumes "\<not> create_flag index"
    and "rebuild_result r = UDS_CORRUPT_COMPONENT \<or> rebuild_result r = UDS_NO_INDEX"
  shows "open_session r index =
           index\<lparr>create_flag := True, index_state := IS_CLOSED, error_flag := False,
                 uds_calls := uds_calls index @ [UdsRebuildLocalIndex]\<rparr>"
proof -
  have e: "open_session_enter index =
      (False, index\<lparr>create_flag := False, index_state := IS_CHANGING, error_flag := False\<rparr>)"
    using assms(1) by (simp add: open_session_enter_def)
  have c: "open_session_calls r False n = (rebuild_result r, False, [UdsRebuildLocalIndex])" for n
    using assms(2) by (auto simp: open_session_calls_def)
  show ?thesis
    using assms(2) by (auto simp: open_session_def e c open_session_leave_def)
qed

lemma open_session_create_ok:
  assumes "create_flag index" and "create_result r = UDS_SUCCESS"
  shows "open_session r index =
           index\<lparr>create_flag := False, index_state := IS_OPENED, error_flag := False,
                 uds_calls := uds_calls index @ [UdsCreateLocalIndex]\<rparr>"
proof -
  have e: "open_session_enter index =
      (True, index\<lparr>create_flag := False, index_state := IS_CHANGING, error_flag := False\<rparr>)"
    using assms(1) by (simp add: open_session_enter_def)
  have c: "open_session_calls r True n = (UDS_SUCCESS, False, [UdsCreateLocalIndex])" for n
    using assms(2) by (simp add: open_session_calls_def)
  show ?thesis
    by (simp add: open_session_def e c open_session_leave_def)
qed

lemma open_session_nonce_mismatch:
  assumes "\<not> create_flag index" and "rebuild_result r = UDS_SUCCESS"
    and "configuration_result r = UDS_SUCCESS"
    and "configuration_read_nonce r \<noteq> configuration_nonce index"
  shows "open_session r index =
           index\<lparr>create_flag := True, index_state := IS_OPENED, error_flag := False,
                 uds_calls := uds_calls index
                   @ [UdsRebuildLocalIndex, UdsGetIndexConfiguration]\<rparr>"
proof -
  have e: "open_session_enter index =
      (False, index\<lparr>create_flag := False, index_state := IS_CHANGING, error_flag := False\<rparr>)"
    using assms(1) by (simp add: open_session_enter_def)
  have c: "open_session_calls r False (configuration_nonce index) =
      (UDS_SUCCESS, True, [UdsRebuildLocalIndex, UdsGetIndexConfiguration])"
    using assms by (auto simp: open_session_calls_def)
  show ?thesis
    by (simp add: open_session_def e c open_session_leave_def)
qed

lemma close_session_eq:
  "close_session r index =
     index\<lparr>uds_calls := uds_calls index @ [UdsCloseIndexSession], index_state := IS_CLOSED,
           error_flag := (error_flag index \<or> close_result r \<noteq> UDS_SUCCESS)\<rparr>"
  by (simp add: close_session_def close_session_enter_def close_session_leave_def)

text \<open>
  C8. When a rebuild attempt (the index closed, the target opened, \<open>create_flag\<close>
  clear) returns \<^verbatim>\<open>UDS_CORRUPT_COMPONENT\<close> or \<^verbatim>\<open>UDS_NO_INDEX\<close>,
  \<^verbatim>\<open>open_session\<close> makes the one engine call, leaves \<open>index_state = IS_CLOSED\<close>
  and sets \<open>create_flag\<close>, so the loop condition holds again; the next pass creates
  an index, and when that succeeds the driver returns with the index \<open>IS_OPENED\<close>,
  \<open>error_flag\<close> false and the engine called exactly for the rebuild and the create.
\<close>

theorem rebuild_failure_recovers:
  assumes "index_state index = IS_CLOSED" and "index_target index = IS_OPENED"
    and "\<not> create_flag index"
    and "rebuild_result r = UDS_CORRUPT_COMPONENT \<or> rebuild_result r = UDS_NO_INDEX"
    and "create_result r' = UDS_SUCCESS"
  shows "open_session r index =
           index\<lparr>create_flag := True, index_state := IS_CLOSED, error_flag := False,
                 uds_calls := uds_calls index @ [UdsRebuildLocalIndex]\<rparr>
       \<and> change_needed (open_session r index)
       \<and> change_dedupe_state (r # r' # rs) index =
           Some (index\<lparr>create_flag := False, index_state := IS_OPENED, error_flag := False,
                       changing := False, deduping := dedupe_flag index,
                       uds_calls := uds_calls index
                         @ [UdsRebuildLocalIndex, UdsCreateLocalIndex]\<rparr>)"
proof -
  let ?i1 = "index\<lparr>create_flag := True, index_state := IS_CLOSED, error_flag := False,
                 uds_calls := uds_calls index @ [UdsRebuildLocalIndex]\<rparr>"
  let ?i2 = "index\<lparr>create_flag := False, index_state := IS_OPENED, error_flag := False,
                 uds_calls := uds_calls index @ [UdsRebuildLocalIndex, UdsCreateLocalIndex]\<rparr>"
  have o: "open_session r index = ?i1"
    using assms(3,4) by (rule open_session_rebuild_failed)
  have n0: "change_needed index"
    using assms by (simp add: change_needed_def)
  have p1: "change_pass r index = ?i1"
    using assms(1) o by (simp add: change_pass_def)
  have n1: "change_needed ?i1"
    by (simp add: change_needed_def)
  have "open_session r' ?i1 = ?i2"
    using assms(5) by (simp add: open_session_create_ok)
  then have p2: "change_pass r' ?i1 = ?i2"
    by (simp add: change_pass_def)
  have n2: "\<not> change_needed ?i2"
    using assms(2) by (simp add: change_needed_def)
  have "change_dedupe_loop (r # r' # rs) index = Some ?i2"
    using n0 n1 n2 p1 p2 by (cases rs) simp_all
  then have "change_dedupe_state (r # r' # rs) index = Some (change_dedupe_finish ?i2)"
    by (simp add: change_dedupe_state_def)
  then show ?thesis
    using o n1 by (simp add: change_dedupe_finish_def)
qed


lemma started_index_fields:
  "index_state (started_index c) = IS_CLOSED" "index_target (started_index c) = IS_OPENED"
  "create_flag (started_index c) = c" "configuration_nonce (started_index c) = 1"
  "uds_calls (started_index c) = []" "error_flag (started_index c) = False"
  "dedupe_flag (started_index c) = True"
  by (simp_all add: started_index_eq)

theorem rebuild_failure_recovers_witness:
  "index_state (started_index False) = IS_CLOSED
   \<and> index_target (started_index False) = IS_OPENED
   \<and> \<not> create_flag (started_index False)
   \<and> (\<exists>index. change_dedupe_state
          [(uds_reply_success 1)\<lparr>rebuild_result := UDS_CORRUPT_COMPONENT\<rparr>, uds_reply_success 1]
          (started_index False) = Some index
        \<and> index_state index = IS_OPENED \<and> \<not> error_flag index \<and> deduping index
        \<and> uds_calls index = [UdsRebuildLocalIndex, UdsCreateLocalIndex])"
proof -
  have a: "rebuild_result ((uds_reply_success 1)\<lparr>rebuild_result := UDS_CORRUPT_COMPONENT\<rparr>)
             = UDS_CORRUPT_COMPONENT
           \<or> rebuild_result ((uds_reply_success 1)\<lparr>rebuild_result := UDS_CORRUPT_COMPONENT\<rparr>)
             = UDS_NO_INDEX"
    by simp
  have b: "create_result (uds_reply_success 1) = UDS_SUCCESS"
    by (simp add: uds_reply_success_def)
  have c: "\<not> create_flag (started_index False)"
    by (simp add: started_index_fields)
  show ?thesis
    using rebuild_failure_recovers
      [OF started_index_fields(1) started_index_fields(2) c a b, of "[]"]
    by (simp add: started_index_fields)
qed

text \<open>
  C7, as amended. When the rebuild succeeds and the configuration read back has a
  nonce other than the configured one, \<^verbatim>\<open>open_session\<close> does not close the
  session: it returns with \<open>index_state = IS_OPENED\<close> and \<open>create_flag\<close> set, after
  the rebuild and the configuration read only. The driver loop then makes two more
  passes: the first closes the session (two passes in all do not end the loop), the
  second creates a fresh index, and when the create succeeds the driver returns
  with \<open>index_state = IS_OPENED\<close> and \<open>error_flag\<close> false.
\<close>

theorem nonce_mismatch_recreates:
  assumes "index_state index = IS_CLOSED" and "index_target index = IS_OPENED"
    and "\<not> create_flag index"
    and "rebuild_result r = UDS_SUCCESS" and "configuration_result r = UDS_SUCCESS"
    and "configuration_read_nonce r \<noteq> configuration_nonce index"
    and "create_result r'' = UDS_SUCCESS"
  shows "open_session r index =
           index\<lparr>create_flag := True, index_state := IS_OPENED, error_flag := False,
                 uds_calls := uds_calls index
                   @ [UdsRebuildLocalIndex, UdsGetIndexConfiguration]\<rparr>
       \<and> change_pass r' (open_session r index) =
           index\<lparr>create_flag := True, index_state := IS_CLOSED,
                 error_flag := (close_result r' \<noteq> UDS_SUCCESS),
                 uds_calls := uds_calls index
                   @ [UdsRebuildLocalIndex, UdsGetIndexConfiguration, UdsCloseIndexSession]\<rparr>
       \<and> change_dedupe_state [r, r'] index = None
       \<and> change_dedupe_state (r # r' # r'' # rs) index =
           Some (index\<lparr>create_flag := False, index_state := IS_OPENED, error_flag := False,
                       changing := False, deduping := dedupe_flag index,
                       uds_calls := uds_calls index
                         @ [UdsRebuildLocalIndex, UdsGetIndexConfiguration,
                            UdsCloseIndexSession, UdsCreateLocalIndex]\<rparr>)"
proof -
  let ?i1 = "index\<lparr>create_flag := True, index_state := IS_OPENED, error_flag := False,
                 uds_calls := uds_calls index
                   @ [UdsRebuildLocalIndex, UdsGetIndexConfiguration]\<rparr>"
  let ?i2 = "index\<lparr>create_flag := True, index_state := IS_CLOSED,
                 error_flag := (close_result r' \<noteq> UDS_SUCCESS),
                 uds_calls := uds_calls index
                   @ [UdsRebuildLocalIndex, UdsGetIndexConfiguration, UdsCloseIndexSession]\<rparr>"
  let ?i3 = "index\<lparr>create_flag := False, index_state := IS_OPENED, error_flag := False,
                 uds_calls := uds_calls index
                   @ [UdsRebuildLocalIndex, UdsGetIndexConfiguration,
                      UdsCloseIndexSession, UdsCreateLocalIndex]\<rparr>"
  have o: "open_session r index = ?i1"
    using assms(3,4,5,6) by (rule open_session_nonce_mismatch)
  have n0: "change_needed index"
    using assms by (simp add: change_needed_def)
  have p1: "change_pass r index = ?i1"
    using assms(1) o by (simp add: change_pass_def)
  have n1: "change_needed ?i1"
    by (simp add: change_needed_def)
  have p2: "change_pass r' ?i1 = ?i2"
    by (simp add: change_pass_def close_session_eq)
  have n2: "change_needed ?i2"
    by (simp add: change_needed_def)
  have "open_session r'' ?i2 = ?i3"
    using assms(7) by (simp add: open_session_create_ok)
  then have p3: "change_pass r'' ?i2 = ?i3"
    by (simp add: change_pass_def)
  have n3: "\<not> change_needed ?i3"
    using assms(2) by (simp add: change_needed_def)
  have two: "change_dedupe_loop [r, r'] index = None"
    using n0 n1 n2 p1 p2 by simp
  have "change_dedupe_loop (r # r' # r'' # rs) index = Some ?i3"
    using n0 n1 n2 n3 p1 p2 p3 by (cases rs) simp_all
  then have "change_dedupe_state (r # r' # r'' # rs) index = Some (change_dedupe_finish ?i3)"
    by (simp add: change_dedupe_state_def)
  then have c4: "change_dedupe_state (r # r' # r'' # rs) index =
           Some (index\<lparr>create_flag := False, index_state := IS_OPENED, error_flag := False,
                       changing := False, deduping := dedupe_flag index,
                       uds_calls := uds_calls index
                         @ [UdsRebuildLocalIndex, UdsGetIndexConfiguration,
                            UdsCloseIndexSession, UdsCreateLocalIndex]\<rparr>)"
    by (simp add: change_dedupe_finish_def)
  have c3: "change_dedupe_state [r, r'] index = None"
    using two by (simp add: change_dedupe_state_def)
  have c2: "change_pass r' (open_session r index) = ?i2"
    unfolding o by (rule p2)
  from o c2 c3 c4 show ?thesis
    by (intro conjI)
qed

theorem nonce_mismatch_recreates_witness:
  "index_state (started_index False) = IS_CLOSED
   \<and> index_target (started_index False) = IS_OPENED
   \<and> \<not> create_flag (started_index False)
   \<and> configuration_read_nonce (uds_reply_success 2) \<noteq> configuration_nonce (started_index False)
   \<and> (\<exists>index. change_dedupe_state
          [uds_reply_success 2, uds_reply_success 2, uds_reply_success 2]
          (started_index False) = Some index
        \<and> index_state index = IS_OPENED \<and> \<not> error_flag index \<and> \<not> create_flag index
        \<and> uds_calls index = [UdsRebuildLocalIndex, UdsGetIndexConfiguration,
                               UdsCloseIndexSession, UdsCreateLocalIndex])"
proof -
  have a: "rebuild_result (uds_reply_success 2) = UDS_SUCCESS"
    and b: "configuration_result (uds_reply_success 2) = UDS_SUCCESS"
    and c: "create_result (uds_reply_success 2) = UDS_SUCCESS"
    and d: "configuration_read_nonce (uds_reply_success 2)
              \<noteq> configuration_nonce (started_index False)"
    by (simp_all add: uds_reply_success_def started_index_fields)
  have e: "\<not> create_flag (started_index False)"
    by (simp add: started_index_fields)
  show ?thesis
    using nonce_mismatch_recreates
      [OF started_index_fields(1) started_index_fields(2) e a b d c,
        of "uds_reply_success 2" "[]"] d
    by (simp add: started_index_fields)
qed

text \<open>
  C7 as stated fails: with the configured nonce 1 and an engine that reads back
  nonce 2, \<^verbatim>\<open>open_session\<close> returns with the session still open and no close call
  made, and after one additional pass of the loop the index is closed, no create
  call has been made and the loop has not ended.
\<close>

theorem nonce_mismatch_one_pass_counterexample:
  "index_state (open_session (uds_reply_success 2) (started_index False)) = IS_OPENED
   \<and> UdsCloseIndexSession
        \<notin> set (uds_calls (open_session (uds_reply_success 2) (started_index False)))
   \<and> index_state (change_pass (uds_reply_success 2)
         (open_session (uds_reply_success 2) (started_index False))) = IS_CLOSED
   \<and> UdsCreateLocalIndex
        \<notin> set (uds_calls (change_pass (uds_reply_success 2)
              (open_session (uds_reply_success 2) (started_index False))))
   \<and> change_dedupe_state [uds_reply_success 2, uds_reply_success 2] (started_index False)
       = None"
proof -
  have o: "open_session (uds_reply_success 2) (started_index False) =
      (started_index False)\<lparr>create_flag := True, index_state := IS_OPENED, error_flag := False,
                 uds_calls := uds_calls (started_index False)
                   @ [UdsRebuildLocalIndex, UdsGetIndexConfiguration]\<rparr>"
    by (rule open_session_nonce_mismatch)
      (simp_all add: uds_reply_success_def started_index_fields)
  show ?thesis
    unfolding o
    by (simp add: change_pass_def close_session_eq started_index_fields change_needed_def
        change_dedupe_state_def o)
qed


subsection \<open>Request dispatcher\<close>

lemma context_of_simps [simp]:
  "context_of (set_context k c s) k' = (if k' = k then c else context_of s k')"
  "context_of (set_index i s) k' = context_of s k'"
  "context_of (invoke_dedupe_callback k s) k' = context_of s k'"
  "context_of (set_dedupe_advice k a s) k' = context_of s k'"
  "context_of (s\<lparr>dedupeContextBusy := b\<rparr>) k' = context_of s k'"
  "context_of (s\<lparr>cpu_queue := q\<rparr>) k' = context_of s k'"
  by (simp_all add: context_of_def set_context_def set_index_def invoke_dedupe_callback_def
      set_dedupe_advice_def)

lemma dedupe_index_simps [simp]:
  "dedupe_index (set_context k c s) = dedupe_index s"
  "dedupe_index (set_index i s) = i"
  "dedupe_index (invoke_dedupe_callback k s) = dedupe_index s"
  "dedupe_index (set_dedupe_advice k a s) = dedupe_index s"
  by (simp_all add: set_context_def set_index_def invoke_dedupe_callback_def
      set_dedupe_advice_def)

lemma data_path_simps [simp]:
  "data_path (set_context k c s) = data_path s"
  "data_path (set_index i s) = data_path s"
  "data_path (invoke_dedupe_callback k s)
     = data_path s @ [Invoke_dedupe_callback k (context_status (context_of s k))]"
  "data_path (set_dedupe_advice k a s) = data_path s @ [Set_dedupe_advice k a]"
  by (simp_all add: set_context_def set_index_def invoke_dedupe_callback_def
      set_dedupe_advice_def context_of_def)

lemma other_fields_simps [simp]:
  "dedupeContextBusy (set_context k c s) = dedupeContextBusy s"
  "dedupeContextBusy (set_index i s) = dedupeContextBusy s"
  "dedupeContextBusy (invoke_dedupe_callback k s) = dedupeContextBusy s"
  "dedupeContextBusy (set_dedupe_advice k a s) = dedupeContextBusy s"
  "globals (set_context k c s) = globals s"
  "globals (set_index i s) = globals s"
  "globals (invoke_dedupe_callback k s) = globals s"
  "globals (set_dedupe_advice k a s) = globals s"
  "cpu_queue (set_context k c s) = cpu_queue s"
  "cpu_queue (set_index i s) = cpu_queue s"
  "cpu_queue (invoke_dedupe_callback k s) = cpu_queue s"
  "cpu_queue (set_dedupe_advice k a s) = cpu_queue s"
  by (simp_all add: set_context_def set_index_def invoke_dedupe_callback_def
      set_dedupe_advice_def)

lemma encode_uds_advice_total:
  "encode_uds_advice request advice =
     Some (request\<lparr>newMetadata := newMetadata (the (encode_uds_advice request advice))\<rparr>)"
  by (simp add: encode_uds_advice_def encodeUInt64LE_def UDS_ADVICE_SIZE_def Let_def)

lemma enqueue_stale:
  assumes "request_state (context_of s k) \<noteq> UR_IDLE"
  shows "enqueue_index_operation now k operation s =
     Some (invoke_dedupe_callback k
            (set_context k
               ((context_of s k)\<lparr>context_status := UDS_SUCCESS, submission_time := now\<rparr>)
               (s\<lparr>dedupeContextBusy := dedupeContextBusy s + 1\<rparr>)))"
  using assms by (simp add: enqueue_index_operation_def compareAndSwap32_def Let_def)

lemma enqueue_not_deduping:
  assumes "request_state (context_of s k) = UR_IDLE" and "\<not> deduping (dedupe_index s)"
  shows "\<exists>request. enqueue_index_operation now k operation s =
     Some (invoke_dedupe_callback k
            (set_context k
               ((context_of s k)\<lparr>context_status := UDS_SUCCESS, submission_time := now,
                                 uds_request := request, request_state := UR_IDLE\<rparr>) s))"
proof -
  let ?request = "(uds_request (context_of s k))
                 \<lparr>chunkName := chunk_name (context_of s k), request_type := operation, update := True\<rparr>"
  let ?advice = "get_dedupe_advice (data_kvios s k)"
  show ?thesis
  proof (cases "operation = UDS_POST \<or> operation = UDS_UPDATE")
    case True
    have "enqueue_index_operation now k operation s =
     Some (invoke_dedupe_callback k
            (set_context k
               ((context_of s k)\<lparr>context_status := UDS_SUCCESS, submission_time := now,
                   uds_request := ?request\<lparr>newMetadata :=
                     newMetadata (the (encode_uds_advice ?request ?advice))\<rparr>,
                   request_state := UR_IDLE\<rparr>) s))"
      using assms True
      by (subst enqueue_index_operation_def, subst encode_uds_advice_total)
        (auto simp: compareAndSwap32_def Let_def)
    then show ?thesis by blast
  next
    case False
    have "enqueue_index_operation now k operation s =
     Some (invoke_dedupe_callback k
            (set_context k
               ((context_of s k)\<lparr>context_status := UDS_SUCCESS, submission_time := now,
                   uds_request := ?request, request_state := UR_IDLE\<rparr>) s))"
      using assms False
      by (simp add: enqueue_index_operation_def compareAndSwap32_def Let_def)
    then show ?thesis by blast
  qed
qed


lemma enqueue_deduping:
  assumes "request_state (context_of s k) = UR_IDLE" and "deduping (dedupe_index s)"
  shows "\<exists>s'. enqueue_index_operation now k operation s = Some s'
           \<and> context_status (context_of s' k) = UDS_SUCCESS
           \<and> request_state (context_of s' k) = UR_BUSY
           \<and> data_path s' = data_path s
           \<and> uds_queue (dedupe_index s') = uds_queue (dedupe_index s) @ [START_INDEX_OPERATION k]
           \<and> active (dedupe_index s') = active (dedupe_index s) + 1"
proof -
  let ?request = "(uds_request (context_of s k))
                 \<lparr>chunkName := chunk_name (context_of s k), request_type := operation, update := True\<rparr>"
  let ?advice = "get_dedupe_advice (data_kvios s k)"
  show ?thesis
  proof (cases "operation = UDS_POST \<or> operation = UDS_UPDATE")
    case True
    show ?thesis
      using assms True
      by (subst enqueue_index_operation_def, subst encode_uds_advice_total)
        (auto simp: compareAndSwap32_def Let_def)
  next
    case False
    show ?thesis
      using assms False
      by (simp add: enqueue_index_operation_def compareAndSwap32_def Let_def)
  qed
qed

text \<open>
  C2. A call of post, query or update on a context that is not \<open>UR_IDLE\<close> (the
  compare-and-set to \<open>UR_BUSY\<close> fails) increments \<^verbatim>\<open>dedupeContextBusy\<close> and
  invokes the data-path callback at once; the index (its queue, \<open>active\<close>,
  \<open>maximum\<close>) and the request state are untouched and no advice is set. A call on an
  idle context while \<open>deduping\<close> is false puts the request state back to \<open>UR_IDLE\<close>
  and invokes the callback, again with no advice set, nothing enqueued and \<open>active\<close>
  unchanged.
\<close>

theorem enqueue_without_submission:
  "(request_state (context_of s k) \<noteq> UR_IDLE \<longrightarrow>
      (\<exists>s'. enqueue_index_operation now k operation s = Some s'
         \<and> dedupeContextBusy s' = dedupeContextBusy s + 1
         \<and> data_path s' = data_path s @ [Invoke_dedupe_callback k UDS_SUCCESS]
         \<and> dedupe_index s' = dedupe_index s
         \<and> request_state (context_of s' k) = request_state (context_of s k)))
   \<and> (request_state (context_of s k) = UR_IDLE \<and> \<not> deduping (dedupe_index s) \<longrightarrow>
      (\<exists>s'. enqueue_index_operation now k operation s = Some s'
         \<and> request_state (context_of s' k) = UR_IDLE
         \<and> data_path s' = data_path s @ [Invoke_dedupe_callback k UDS_SUCCESS]
         \<and> dedupe_index s' = dedupe_index s
         \<and> dedupeContextBusy s' = dedupeContextBusy s))"
proof (intro conjI impI)
  assume "request_state (context_of s k) \<noteq> UR_IDLE"
  then show "\<exists>s'. enqueue_index_operation now k operation s = Some s'
         \<and> dedupeContextBusy s' = dedupeContextBusy s + 1
         \<and> data_path s' = data_path s @ [Invoke_dedupe_callback k UDS_SUCCESS]
         \<and> dedupe_index s' = dedupe_index s
         \<and> request_state (context_of s' k) = request_state (context_of s k)"
    by (simp add: enqueue_stale)
next
  assume a: "request_state (context_of s k) = UR_IDLE \<and> \<not> deduping (dedupe_index s)"
  then obtain request where "enqueue_index_operation now k operation s =
     Some (invoke_dedupe_callback k
            (set_context k
               ((context_of s k)\<lparr>context_status := UDS_SUCCESS, submission_time := now,
                                 uds_request := request, request_state := UR_IDLE\<rparr>) s))"
    using enqueue_not_deduping [of s k now operation] by blast
  then show "\<exists>s'. enqueue_index_operation now k operation s = Some s'
         \<and> request_state (context_of s' k) = UR_IDLE
         \<and> data_path s' = data_path s @ [Invoke_dedupe_callback k UDS_SUCCESS]
         \<and> dedupe_index s' = dedupe_index s
         \<and> dedupeContextBusy s' = dedupeContextBusy s"
    by simp
qed

theorem enqueue_without_submission_witness:
  "request_state (context_of
       (example_layer (started_index True) (\<lambda>k. example_kvio UR_TIMED_OUT ETIMEDOUT 0)) 0)
     \<noteq> UR_IDLE
   \<and> (\<exists>s'. enqueue_index_operation 3 0 UDS_POST
            (example_layer (started_index True) (\<lambda>k. example_kvio UR_TIMED_OUT ETIMEDOUT 0))
            = Some s'
          \<and> dedupeContextBusy s' = 1
          \<and> data_path s' = [Invoke_dedupe_callback 0 UDS_SUCCESS]
          \<and> uds_queue (dedupe_index s') = [] \<and> active (dedupe_index s') = 0)
   \<and> request_state (context_of
       (example_layer (started_index True) (\<lambda>k. example_kvio UR_IDLE UDS_SUCCESS 0)) 0)
     = UR_IDLE
   \<and> \<not> deduping (dedupe_index
       (example_layer (started_index True) (\<lambda>k. example_kvio UR_IDLE UDS_SUCCESS 0)))
   \<and> (\<exists>s'. enqueue_index_operation 3 0 UDS_POST
            (example_layer (started_index True) (\<lambda>k. example_kvio UR_IDLE UDS_SUCCESS 0))
            = Some s'
          \<and> request_state (context_of s' 0) = UR_IDLE
          \<and> dedupeContextBusy s' = 0
          \<and> data_path s' = [Invoke_dedupe_callback 0 UDS_SUCCESS]
          \<and> uds_queue (dedupe_index s') = [] \<and> active (dedupe_index s') = 0)"
  using enqueue_without_submission
      [of "example_layer (started_index True) (\<lambda>k. example_kvio UR_TIMED_OUT ETIMEDOUT 0)"
        0 3 UDS_POST]
    enqueue_without_submission
      [of "example_layer (started_index True) (\<lambda>k. example_kvio UR_IDLE UDS_SUCCESS 0)"
        0 3 UDS_POST]
  by (auto simp: example_layer_def example_kvio_def context_of_def started_index_eq)

text \<open>
  C10. Every call of post, query or update leaves the context's status at
  \<^verbatim>\<open>UDS_SUCCESS\<close>, whatever it was before, since the status is written before the
  compare-and-set. On the two paths that invoke the callback without a submission
  (the context was not idle, or \<open>deduping\<close> is false) the callback is invoked with
  that status; on the submitting path no callback is invoked by the call.
\<close>

theorem enqueue_sets_status_first:
  "\<exists>s'. enqueue_index_operation now k operation s = Some s'
     \<and> context_status (context_of s' k) = UDS_SUCCESS
     \<and> (request_state (context_of s k) \<noteq> UR_IDLE \<or> \<not> deduping (dedupe_index s) \<longrightarrow>
          data_path s' = data_path s @ [Invoke_dedupe_callback k UDS_SUCCESS])
     \<and> (request_state (context_of s k) = UR_IDLE \<and> deduping (dedupe_index s) \<longrightarrow>
          data_path s' = data_path s)"
proof (cases "request_state (context_of s k) = UR_IDLE")
  case False
  then show ?thesis
    by (simp add: enqueue_stale)
next
  case idle: True
  show ?thesis
  proof (cases "deduping (dedupe_index s)")
    case True
    with idle enqueue_deduping [of s k now operation] show ?thesis
      by auto
  next
    case False
    with idle enqueue_not_deduping [of s k now operation] show ?thesis
      by auto
  qed
qed


theorem enqueue_sets_status_first_witness:
  "context_status (context_of
       (example_layer (started_index True) (\<lambda>k. example_kvio UR_TIMED_OUT ETIMEDOUT 0)) 0)
     = ETIMEDOUT
   \<and> (\<exists>s'. enqueue_index_operation 3 0 UDS_QUERY
            (example_layer (started_index True) (\<lambda>k. example_kvio UR_TIMED_OUT ETIMEDOUT 0))
            = Some s'
          \<and> context_status (context_of s' 0) = UDS_SUCCESS
          \<and> data_path s' = [Invoke_dedupe_callback 0 UDS_SUCCESS])"
  using enqueue_sets_status_first
      [of 3 0 UDS_QUERY
        "example_layer (started_index True) (\<lambda>k. example_kvio UR_TIMED_OUT ETIMEDOUT 0)"]
  by (auto simp: example_layer_def example_kvio_def context_of_def started_index_eq)


subsection \<open>Pending tracker and timeouts\<close>

lemma context_of_start_expiration_timer [simp]:
  "context_of (start_expiration_timer now k s) k' = context_of s k'"
  by (simp add: start_expiration_timer_def Let_def)

lemma context_of_report_dedupe_timeout [simp]:
  "context_of (report_dedupe_timeout now s) k = context_of s k"
  by (simp add: report_dedupe_timeout_def Let_def)

lemma data_path_report_dedupe_timeout [simp]:
  "data_path (report_dedupe_timeout now s) = data_path s"
  by (simp add: report_dedupe_timeout_def Let_def)

lemma globals_report_dedupe_timeout [simp]:
  "globals (report_dedupe_timeout now s) = globals s"
  by (simp add: report_dedupe_timeout_def Let_def)

lemma dedupeContextBusy_report_dedupe_timeout [simp]:
  "dedupeContextBusy (report_dedupe_timeout now s) = dedupeContextBusy s"
  by (simp add: report_dedupe_timeout_def Let_def)

lemma data_kvios_report_dedupe_timeout [simp]:
  "data_kvios (report_dedupe_timeout now s) = data_kvios s"
  by (simp add: report_dedupe_timeout_def Let_def set_index_def)

lemma dedupe_index_report_dedupe_timeout:
  "dedupe_index (report_dedupe_timeout now s) =
     (dedupe_index s)\<lparr>timeout_reporter :=
        (timeout_reporter (dedupe_index s))
          \<lparr>reporter_value := reporter_value (timeout_reporter (dedupe_index s)) + 1,
           work_item_queued := 1\<rparr>\<rparr>"
  by (simp add: report_dedupe_timeout_def Let_def)

lemma cpu_queue_report_dedupe_timeout:
  "cpu_queue (report_dedupe_timeout now s) =
     (if work_item_queued (timeout_reporter (dedupe_index s)) = 0
      then cpu_queue s @ [now + reporting_interval (timeout_reporter (dedupe_index s))]
      else cpu_queue s)"
  by (simp add: report_dedupe_timeout_def Let_def)

text \<open>One step of the second loop\<close>

lemma timeout_expired_skip:
  assumes "request_state (context_of s k) \<noteq> UR_BUSY"
  shows "timeout_expired now (k # rest) s = timeout_expired now rest s"
  using assms by (simp add: compareAndSwap32_def Let_def)

lemma timeout_expired_hit:
  assumes "request_state (context_of s k) = UR_BUSY"
  shows "timeout_expired now (k # rest) s =
     timeout_expired now rest
       (report_dedupe_timeout now
          (set_index ((dedupe_index s)\<lparr>active := active (dedupe_index s) - 1\<rparr>)
             (invoke_dedupe_callback k
                (set_context k
                   ((context_of s k)\<lparr>request_state := UR_TIMED_OUT,
                                     context_status := ETIMEDOUT\<rparr>) s))))"
  using assms by (simp add: compareAndSwap32_def Let_def)

lemma timeout_expired_result:
  assumes "distinct ks"
  shows "data_path (timeout_expired now ks s) =
           data_path s @ map (\<lambda>k. Invoke_dedupe_callback k ETIMEDOUT) (timed_out s ks)
       \<and> active (dedupe_index (timeout_expired now ks s)) =
           active (dedupe_index s) - of_nat (length (timed_out s ks))
       \<and> reporter_value (timeout_reporter (dedupe_index (timeout_expired now ks s))) =
           reporter_value (timeout_reporter (dedupe_index s)) + of_nat (length (timed_out s ks))
       \<and> pending_head (dedupe_index (timeout_expired now ks s)) = pending_head (dedupe_index s)
       \<and> started_timer (dedupe_index (timeout_expired now ks s)) = started_timer (dedupe_index s)
       \<and> pending_timer (dedupe_index (timeout_expired now ks s)) = pending_timer (dedupe_index s)
       \<and> (\<forall>k. context_of (timeout_expired now ks s) k =
             (if k \<in> set (timed_out s ks)
              then (context_of s k)\<lparr>request_state := UR_TIMED_OUT, context_status := ETIMEDOUT\<rparr>
              else context_of s k))"
  using assms
proof (induction ks arbitrary: s)
  case Nil
  show ?case by (simp add: timed_out_def)
next
  case (Cons k ks)
  then have d: "distinct ks" and nk: "k \<notin> set ks"
    by simp_all
  show ?case
  proof (cases "request_state (context_of s k) = UR_BUSY")
    case False
    then have "timed_out s (k # ks) = timed_out s ks"
      by (simp add: timed_out_def)
    moreover have "timeout_expired now (k # ks) s = timeout_expired now ks s"
      using False by (rule timeout_expired_skip)
    ultimately show ?thesis
      using Cons.IH [OF d, of s] by (simp del: timeout_expired.simps)
  next
    case True
    let ?s = "report_dedupe_timeout now
          (set_index ((dedupe_index s)\<lparr>active := active (dedupe_index s) - 1\<rparr>)
             (invoke_dedupe_callback k
                (set_context k
                   ((context_of s k)\<lparr>request_state := UR_TIMED_OUT,
                                     context_status := ETIMEDOUT\<rparr>) s)))"
    have step: "timeout_expired now (k # ks) s = timeout_expired now ks ?s"
      using True by (rule timeout_expired_hit)
    have same: "timed_out ?s ks = timed_out s ks"
      unfolding timed_out_def using nk by (intro filter_cong) auto
    have t: "timed_out s (k # ks) = k # timed_out s ks"
      using True by (simp add: timed_out_def)
    have nk': "k \<notin> set (timed_out s ks)"
      using nk by (simp add: timed_out_def)
    show ?thesis
      unfolding step t
      using Cons.IH [OF d, of ?s] nk'
      by (simp add: same dedupe_index_report_dedupe_timeout del: timeout_expired.simps)
  qed
qed


lemma globals_start_expiration_timer [simp]:
  "globals (start_expiration_timer now k s) = globals s"
  "data_path (start_expiration_timer now k s) = data_path s"
  by (simp_all add: start_expiration_timer_def Let_def)

lemma dedupe_index_start_expiration_timer:
  "dedupe_index (start_expiration_timer now k s) =
     (if started_timer (dedupe_index s) then dedupe_index s
      else (dedupe_index s)\<lparr>started_timer := True,
             pending_timer := Some (get_albireo_timeout (globals s) now
                                      (submission_time (context_of s k)))\<rparr>)"
  by (simp add: start_expiration_timer_def Let_def)

lemma timeout_scan_result:
  assumes "pending_head (dedupe_index s) = ps"
    and "\<forall>k. submission_time (context_of s k) = T k"
  shows "fst (timeout_scan e now ps acc s) = acc @ takeWhile (\<lambda>k. T k < e) ps
       \<and> dedupe_index (snd (timeout_scan e now ps acc s)) =
           (dedupe_index s)
             \<lparr>pending_head := dropWhile (\<lambda>k. T k < e) ps,
              started_timer :=
                (started_timer (dedupe_index s) \<or> dropWhile (\<lambda>k. T k < e) ps \<noteq> []),
              pending_timer :=
                (if dropWhile (\<lambda>k. T k < e) ps \<noteq> [] \<and> \<not> started_timer (dedupe_index s)
                 then Some (get_albireo_timeout (globals s) now
                              (T (hd (dropWhile (\<lambda>k. T k < e) ps))))
                 else pending_timer (dedupe_index s))\<rparr>
       \<and> data_path (snd (timeout_scan e now ps acc s)) = data_path s
       \<and> globals (snd (timeout_scan e now ps acc s)) = globals s
       \<and> (\<forall>k. context_of (snd (timeout_scan e now ps acc s)) k =
             (if k \<in> set (takeWhile (\<lambda>k. T k < e) ps)
              then (context_of s k)\<lparr>is_pending := False\<rparr> else context_of s k))"
  using assms
proof (induction ps arbitrary: acc s)
  case Nil
  then show ?case by simp
next
  case (Cons k rest)
  show ?case
  proof (cases "T k < e")
    case False
    then have stop: "e \<le> submission_time (context_of s k)"
      using Cons.prems(2) by (simp add: not_less)
    show ?thesis
      using False stop Cons.prems
      by (simp add: dedupe_index_start_expiration_timer)
  next
    case True
    then have go: "\<not> e \<le> submission_time (context_of s k)"
      using Cons.prems(2) by (simp add: not_le)
    let ?s = "set_context k ((context_of s k)\<lparr>is_pending := False\<rparr>)
                (set_index ((dedupe_index s)\<lparr>pending_head := rest\<rparr>) s)"
    have step: "timeout_scan e now (k # rest) acc s = timeout_scan e now rest (acc @ [k]) ?s"
      using go by (simp add: Let_def)
    have p: "pending_head (dedupe_index ?s) = rest"
      by simp
    have t: "\<forall>j. submission_time (context_of ?s j) = T j"
      using Cons.prems(2) by simp
    show ?thesis
      unfolding step
      using Cons.IH [OF p t, of "acc @ [k]"] True
      by auto
  qed
qed


lemma timeout_index_operations_empty:
  assumes "pending_head (dedupe_index s) = []"
  shows "timeout_index_operations kt now s =
           s\<lparr>dedupe_index := (dedupe_index s)\<lparr>started_timer := False\<rparr>\<rparr>"
  using assms by (simp add: timeout_index_operations_def Let_def set_index_def)

lemma timeout_index_operations_result:
  fixes s :: kernel_layer and kt :: kernel_time and now :: Jiffies
  defines "earliest \<equiv> now - msecs_to_jiffies kt (albireo_timeout_interval (globals s))"
  defines "expired \<equiv> takeWhile (\<lambda>k. submission_time (context_of s k) < earliest)
                        (pending_head (dedupe_index s))"
  defines "remaining \<equiv> dropWhile (\<lambda>k. submission_time (context_of s k) < earliest)
                          (pending_head (dedupe_index s))"
  defines "hit \<equiv> timed_out s expired"
  defines "s' \<equiv> timeout_index_operations kt now s"
  assumes dist: "distinct (pending_head (dedupe_index s))"
  shows "pending_head (dedupe_index s') = remaining"
    and "started_timer (dedupe_index s') = (remaining \<noteq> [])"
    and "pending_timer (dedupe_index s') =
          (if remaining \<noteq> []
           then Some (get_albireo_timeout (globals s) now
                        (submission_time (context_of s (hd remaining))))
           else pending_timer (dedupe_index s))"
    and "context_of s' k =
          (if k \<in> set hit
           then (context_of s k)\<lparr>request_state := UR_TIMED_OUT, is_pending := False,
                                 context_status := ETIMEDOUT\<rparr>
           else if k \<in> set expired then (context_of s k)\<lparr>is_pending := False\<rparr>
           else context_of s k)"
    and "data_path s' = data_path s @ map (\<lambda>k. Invoke_dedupe_callback k ETIMEDOUT) hit"
    and "active (dedupe_index s') = active (dedupe_index s) - of_nat (length hit)"
    and "reporter_value (timeout_reporter (dedupe_index s')) =
           reporter_value (timeout_reporter (dedupe_index s)) + of_nat (length hit)"
proof -
  let ?s0 = "set_index ((dedupe_index s)\<lparr>started_timer := False\<rparr>) s"
  let ?T = "\<lambda>k. submission_time (context_of s k)"
  let ?scan = "timeout_scan earliest now (pending_head (dedupe_index s)) [] ?s0"
  have p: "pending_head (dedupe_index ?s0) = pending_head (dedupe_index s)"
    by simp
  have t: "\<forall>k. submission_time (context_of ?s0 k) = ?T k"
    by simp
  note scan = timeout_scan_result [OF p t, of earliest now "[]", folded expired_def remaining_def]
  have ex: "fst ?scan = expired"
    using scan by simp
  have run: "s' = timeout_expired now expired (snd ?scan)"
    unfolding s'_def timeout_index_operations_def Let_def earliest_def [symmetric]
    using ex by (simp add: split_beta)
  have dex: "distinct expired"
    unfolding expired_def using dist by (rule distinct_takeWhile)
  have same: "timed_out (snd ?scan) expired = hit"
    unfolding hit_def timed_out_def using scan by (intro filter_cong) auto
  note fin = timeout_expired_result [OF dex, of now "snd ?scan", unfolded same, folded run]
  have sub: "set hit \<subseteq> set expired"
    by (auto simp: hit_def timed_out_def)
  show "pending_head (dedupe_index s') = remaining"
    using fin scan by simp
  show "started_timer (dedupe_index s') = (remaining \<noteq> [])"
    using fin scan by simp
  show "pending_timer (dedupe_index s') =
          (if remaining \<noteq> []
           then Some (get_albireo_timeout (globals s) now
                        (submission_time (context_of s (hd remaining))))
           else pending_timer (dedupe_index s))"
    using fin scan by simp
  show "context_of s' k =
          (if k \<in> set hit
           then (context_of s k)\<lparr>request_state := UR_TIMED_OUT, is_pending := False,
                                 context_status := ETIMEDOUT\<rparr>
           else if k \<in> set expired then (context_of s k)\<lparr>is_pending := False\<rparr>
           else context_of s k)"
    using fin scan sub by auto
  show "data_path s' = data_path s @ map (\<lambda>k. Invoke_dedupe_callback k ETIMEDOUT) hit"
    using fin scan by simp
  show "active (dedupe_index s') = active (dedupe_index s) - of_nat (length hit)"
    using fin scan by simp
  show "reporter_value (timeout_reporter (dedupe_index s')) =
           reporter_value (timeout_reporter (dedupe_index s)) + of_nat (length hit)"
    using fin scan by simp
qed


text \<open>
  C6. When the pending timer fires at time \<open>now\<close>, \<^verbatim>\<open>timeout_index_operations\<close>
  takes off the pending list exactly its longest leading run of entries submitted
  earlier than \<open>now\<close> minus the timeout (\<open>expired\<close>) and clears their \<open>is_pending\<close>;
  the list keeps the rest (\<open>remaining\<close>). \<open>started_timer\<close> ends up set, and the timer
  re-armed for the first remaining entry, exactly when entries remain. Every expired
  entry that is \<open>UR_BUSY\<close> becomes \<open>UR_TIMED_OUT\<close> with status \<^verbatim>\<open>ETIMEDOUT\<close> and
  gets one callback, in list order; \<open>active\<close> drops and the reporter's counter rises
  by the number of such entries; every other request keeps its state and status.
  With an empty pending list the only change is that \<open>started_timer\<close> is cleared:
  nothing is re-armed.
\<close>

theorem timer_expires_overdue:
  assumes "distinct (pending_head (dedupe_index s))"
  shows "let earliest = now - msecs_to_jiffies kt (albireo_timeout_interval (globals s));
             overdue = (\<lambda>k. submission_time (context_of s k) < earliest);
             expired = takeWhile overdue (pending_head (dedupe_index s));
             remaining = dropWhile overdue (pending_head (dedupe_index s));
             hit = filter (\<lambda>k. request_state (context_of s k) = UR_BUSY) expired;
             s' = timeout_index_operations kt now s
         in pending_head (dedupe_index s') = remaining
          \<and> started_timer (dedupe_index s') = (remaining \<noteq> [])
          \<and> pending_timer (dedupe_index s') =
              (if remaining \<noteq> []
               then Some (get_albireo_timeout (globals s) now
                            (submission_time (context_of s (hd remaining))))
               else pending_timer (dedupe_index s))
          \<and> (\<forall>k. context_of s' k =
                (if k \<in> set hit
                 then (context_of s k)\<lparr>request_state := UR_TIMED_OUT, is_pending := False,
                                       context_status := ETIMEDOUT\<rparr>
                 else if k \<in> set expired then (context_of s k)\<lparr>is_pending := False\<rparr>
                 else context_of s k))
          \<and> data_path s' = data_path s @ map (\<lambda>k. Invoke_dedupe_callback k ETIMEDOUT) hit
          \<and> active (dedupe_index s') = active (dedupe_index s) - of_nat (length hit)
          \<and> reporter_value (timeout_reporter (dedupe_index s')) =
              reporter_value (timeout_reporter (dedupe_index s)) + of_nat (length hit)
          \<and> (pending_head (dedupe_index s) = [] \<longrightarrow>
                s' = s\<lparr>dedupe_index := (dedupe_index s)\<lparr>started_timer := False\<rparr>\<rparr>)"
  unfolding Let_def
  using timeout_index_operations_result [OF assms, of kt now]
    timeout_index_operations_empty [of s kt now]
  by (simp add: timed_out_def)

lemma example_globals_eq:
  "example_globals =
     \<lparr>albireo_timeout_interval = 5, min_albireo_timer_interval = 2,
      albireo_timeout_jiffies = 5, min_albireo_timer_jiffies = 2\<rparr>"
  by (simp add: example_globals_def set_albireo_timeout_interval_def
      set_min_albireo_timer_interval_def linux_time_def initial_globals_def Let_def)

theorem timer_expires_overdue_witness:
  "distinct (pending_head (dedupe_index pending_layer))
   \<and> pending_head (dedupe_index (timeout_index_operations (linux_time 1000) 6 pending_layer))
       = [1]
   \<and> started_timer (dedupe_index (timeout_index_operations (linux_time 1000) 6 pending_layer))
   \<and> pending_timer (dedupe_index (timeout_index_operations (linux_time 1000) 6 pending_layer))
       = Some 9
   \<and> data_path (timeout_index_operations (linux_time 1000) 6 pending_layer)
       = [Invoke_dedupe_callback 0 ETIMEDOUT]
   \<and> active (dedupe_index (timeout_index_operations (linux_time 1000) 6 pending_layer)) = 1
   \<and> reporter_value (timeout_reporter
         (dedupe_index (timeout_index_operations (linux_time 1000) 6 pending_layer))) = 1
   \<and> request_state (context_of (timeout_index_operations (linux_time 1000) 6 pending_layer) 0)
       = UR_TIMED_OUT
   \<and> request_state (context_of (timeout_index_operations (linux_time 1000) 6 pending_layer) 1)
       = UR_BUSY
   \<and> pending_head (dedupe_index
         (example_layer ((started_index True)\<lparr>started_timer := True\<rparr>) (\<lambda>k. pending_kvio 0)))
       = []
   \<and> timeout_index_operations (linux_time 1000) 6
         (example_layer ((started_index True)\<lparr>started_timer := True\<rparr>) (\<lambda>k. pending_kvio 0))
       = example_layer (started_index True) (\<lambda>k. pending_kvio 0)"
proof -
  have d: "distinct (pending_head (dedupe_index pending_layer))"
    by (simp add: pending_layer_def example_layer_def)
  have d0: "distinct (pending_head (dedupe_index
               (example_layer ((started_index True)\<lparr>started_timer := True\<rparr>)
                  (\<lambda>k. pending_kvio 0))))"
    by (simp add: example_layer_def started_index_eq)
  have m: "msecs_to_jiffies (linux_time 1000) 5 = 5"
    by (simp add: linux_time_def)
  show ?thesis
    using d timer_expires_overdue [OF d, of 6 "linux_time 1000"]
      timer_expires_overdue [OF d0, of 6 "linux_time 1000"]
    by (simp add: Let_def pending_layer_def example_layer_def example_globals_eq m
        context_of_def pending_kvio_def get_albireo_timeout_def started_index_eq)
qed


lemma decode_uds_advice_total: "decode_uds_advice request \<noteq> None"
  by (simp add: decode_uds_advice_def decodeUInt64LE_def UDS_ADVICE_SIZE_def Let_def)

lemma finish_when_busy:
  assumes "request_state (context_of t k) = UR_BUSY"
  shows "\<exists>s2. finish_index_operation k t = Some s2
           \<and> request_state (context_of s2 k) = UR_IDLE
           \<and> context_status (context_of s2 k) = status (uds_request (context_of t k))
           \<and> is_pending (context_of s2 k) = False
           \<and> filter (is_callback_of k) (data_path s2) =
               filter (is_callback_of k) (data_path t)
                 @ [Invoke_dedupe_callback k (status (uds_request (context_of t k)))]
           \<and> active (dedupe_index s2) = active (dedupe_index t) - 1"
proof -
  obtain v where d: "decode_uds_advice (uds_request (context_of t k)) = Some v"
    using decode_uds_advice_total [of "uds_request (context_of t k)"] by auto
  show ?thesis
    using assms d
    by (cases v) (simp_all add: finish_index_operation_def compareAndSwap32_def Let_def)
qed


lemma finish_after_timeout:
  assumes "request_state (context_of t k) = UR_TIMED_OUT"
  shows "finish_index_operation k t =
           Some (set_context k ((context_of t k)\<lparr>request_state := UR_IDLE\<rparr>) t)"
  using assms by (simp add: finish_index_operation_def compareAndSwap32_def Let_def)

lemma callbacks_of_hit:
  assumes "distinct ks" and "k \<in> set ks"
  shows "filter (is_callback_of k) (map (\<lambda>j. Invoke_dedupe_callback j st) ks)
           = [Invoke_dedupe_callback k st]"
  using assms
proof (induction ks)
  case Nil
  then show ?case by simp
next
  case (Cons j ks)
  show ?case
  proof (cases "j = k")
    case True
    then have "k \<notin> set ks"
      using Cons.prems by simp
    then have "filter (is_callback_of k) (map (\<lambda>j. Invoke_dedupe_callback j st) ks) = []"
      by (auto simp: filter_empty_conv)
    with True show ?thesis by simp
  next
    case False
    with Cons show ?thesis by simp
  qed
qed

text \<open>
  C1. If request \<open>k\<close> is \<open>UR_BUSY\<close> and among the entries the timer expires, the
  timer path makes it \<open>UR_TIMED_OUT\<close> and adds exactly one callback of \<open>k\<close> to the
  data-path log. Whatever the engine then writes into the request,
  \<^verbatim>\<open>finish_index_operation\<close> returns with the context \<open>UR_IDLE\<close>, the data-path log
  and \<open>active\<close> unchanged: no second callback. More generally, on any context that
  is \<open>UR_TIMED_OUT\<close> the completion only stores \<open>UR_IDLE\<close>.
\<close>

theorem late_completion_is_silent:
  assumes "distinct (pending_head (dedupe_index s))"
    and "k \<in> set (takeWhile
            (\<lambda>k. submission_time (context_of s k)
                    < now - msecs_to_jiffies kt (albireo_timeout_interval (globals s)))
            (pending_head (dedupe_index s)))"
    and "request_state (context_of s k) = UR_BUSY"
  shows "request_state (context_of (timeout_index_operations kt now s) k) = UR_TIMED_OUT
       \<and> filter (is_callback_of k) (data_path (timeout_index_operations kt now s))
           = filter (is_callback_of k) (data_path s) @ [Invoke_dedupe_callback k ETIMEDOUT]
       \<and> (\<forall>request. \<exists>s2.
             finish_index_operation k
               (set_context k
                  ((context_of (timeout_index_operations kt now s) k)\<lparr>uds_request := request\<rparr>)
                  (timeout_index_operations kt now s)) = Some s2
             \<and> request_state (context_of s2 k) = UR_IDLE
             \<and> data_path s2 = data_path (timeout_index_operations kt now s)
             \<and> active (dedupe_index s2)
                 = active (dedupe_index (timeout_index_operations kt now s)))
       \<and> (\<forall>t. request_state (context_of t k) = UR_TIMED_OUT \<longrightarrow>
             finish_index_operation k t =
               Some (set_context k ((context_of t k)\<lparr>request_state := UR_IDLE\<rparr>) t))"
proof -
  let ?expired = "takeWhile
            (\<lambda>k. submission_time (context_of s k)
                    < now - msecs_to_jiffies kt (albireo_timeout_interval (globals s)))
            (pending_head (dedupe_index s))"
  let ?s1 = "timeout_index_operations kt now s"
  have hit: "k \<in> set (timed_out s ?expired)"
    using assms(2,3) by (simp add: timed_out_def)
  have dh: "distinct (timed_out s ?expired)"
    unfolding timed_out_def using assms(1) by (intro distinct_filter distinct_takeWhile)
  have a: "request_state (context_of ?s1 k) = UR_TIMED_OUT"
    using timeout_index_operations_result(4) [OF assms(1), of kt now k] hit by simp
  have b: "filter (is_callback_of k) (data_path ?s1)
           = filter (is_callback_of k) (data_path s) @ [Invoke_dedupe_callback k ETIMEDOUT]"
    using timeout_index_operations_result(5) [OF assms(1), of kt now] callbacks_of_hit [OF dh hit]
    by simp
  have c: "\<exists>s2. finish_index_operation k
               (set_context k ((context_of ?s1 k)\<lparr>uds_request := request\<rparr>) ?s1) = Some s2
             \<and> request_state (context_of s2 k) = UR_IDLE
             \<and> data_path s2 = data_path ?s1
             \<and> active (dedupe_index s2) = active (dedupe_index ?s1)" for request
    using a by (simp add: finish_after_timeout)
  show ?thesis
    using a b c finish_after_timeout by blast
qed

theorem late_completion_is_silent_witness:
  "distinct (pending_head (dedupe_index pending_layer))
   \<and> 0 \<in> set (takeWhile
            (\<lambda>k. submission_time (context_of pending_layer k)
                    < 6 - msecs_to_jiffies (linux_time 1000)
                          (albireo_timeout_interval (globals pending_layer)))
            (pending_head (dedupe_index pending_layer)))
   \<and> request_state (context_of pending_layer 0) = UR_BUSY
   \<and> (\<exists>s2. finish_index_operation 0
               (set_context 0
                  ((context_of (timeout_index_operations (linux_time 1000) 6 pending_layer) 0)
                     \<lparr>uds_request := example_request\<rparr>)
                  (timeout_index_operations (linux_time 1000) 6 pending_layer)) = Some s2
          \<and> request_state (context_of s2 0) = UR_IDLE
          \<and> filter (is_callback_of 0) (data_path s2) = [Invoke_dedupe_callback 0 ETIMEDOUT])"
proof -
  have d: "distinct (pending_head (dedupe_index pending_layer))"
    by (simp add: pending_layer_def example_layer_def)
  have m: "msecs_to_jiffies (linux_time 1000) 5 = 5"
    by (simp add: linux_time_def)
  have e: "0 \<in> set (takeWhile
            (\<lambda>k. submission_time (context_of pending_layer k)
                    < 6 - msecs_to_jiffies (linux_time 1000)
                          (albireo_timeout_interval (globals pending_layer)))
            (pending_head (dedupe_index pending_layer)))"
    by (simp add: pending_layer_def example_layer_def example_globals_eq m context_of_def
        pending_kvio_def)
  have b: "request_state (context_of pending_layer 0) = UR_BUSY"
    by (simp add: pending_layer_def example_layer_def context_of_def pending_kvio_def)
  have p: "data_path pending_layer = []"
    by (simp add: pending_layer_def example_layer_def)
  show ?thesis
    using d e b late_completion_is_silent [OF d e b] p
    by (fastforce simp: p)
qed


end
